theory Spec2Isabelle
  imports Complex_Main "HOL-Library.Sublist"
begin

section \<open>Python strings\<close>

text \<open>
  A Python \<open>str\<close> is a sequence of code points. The development covers the code points
  below 256 (Latin-1): a \<^typ>\<open>char\<close> is the code point \<open>of_char c\<close>, a \<^typ>\<open>string\<close>
  is a \<open>str\<close>, and \<open>length\<close> counts code points as \<open>len\<close> does. The character
  classes below are those of \<open>str.isspace\<close>, of the pattern classes \<open>\s\<close> and \<open>\d\<close>
  and of \<open>str.lower\<close> on that range.
\<close>

definition isspace :: "char \<Rightarrow> bool" where
  "isspace c = (let n = (of_char c :: nat) in
     (9 \<le> n \<and> n \<le> 13) \<or> (28 \<le> n \<and> n \<le> 32) \<or> n = 133 \<or> n = 160)"

definition isdigit :: "char \<Rightarrow> bool" where
  "isdigit c = (let n = (of_char c :: nat) in 48 \<le> n \<and> n \<le> 57)"

definition lower_char :: "char \<Rightarrow> char" where
  "lower_char c = (let n = (of_char c :: nat) in
     if (65 \<le> n \<and> n \<le> 90) \<or> (192 \<le> n \<and> n \<le> 222 \<and> n \<noteq> 215)
     then char_of (n + 32) else c)"

text \<open>\<open>text.lower()\<close>\<close>

definition lower :: "string \<Rightarrow> string" where
  "lower text = map lower_char text"

text \<open>\<open>text.strip()\<close>: whitespace is dropped from both ends.\<close>

definition strip :: "string \<Rightarrow> string" where
  "strip text = rev (dropWhile isspace (rev (dropWhile isspace text)))"

text \<open>\<open>word in text\<close>: \<open>word\<close> occurs in \<open>text\<close> as a contiguous run.\<close>

fun contains :: "string \<Rightarrow> string \<Rightarrow> bool" where
  "contains [] word = (word = [])"
| "contains (c # cs) word = (prefix word (c # cs) \<or> contains cs word)"

text \<open>\<open>any(word in text for word in words)\<close>\<close>

definition any_in :: "string \<Rightarrow> string list \<Rightarrow> bool" where
  "any_in text words = list_ex (contains text) words"

text \<open>
  \<open>int(digits)\<close> on a run of decimal digits. Python integers are unbounded; the
  interpreter's limit on the length of the digit string (4300 digits by default) is not
  modelled, \<open>classify\<close> passing texts of at most 1000 characters.
\<close>

definition digit_value :: "char \<Rightarrow> nat" where
  "digit_value c = of_char c - 48"

definition int_of_digits :: "string \<Rightarrow> nat" where
  "int_of_digits ds = foldl (\<lambda>n c. 10 * n + digit_value c) 0 ds"

section \<open>Input sanitization\<close>

text \<open>\<open>sanitize_input\<close>: \<open>text.strip()[:1000]\<close>\<close>

definition sanitize_input :: "string \<Rightarrow> string" where
  "sanitize_input text = take 1000 (strip text)"

section \<open>Python values and exceptions\<close>

text \<open>
  The exceptions the pipeline can raise. \<open>RequestException\<close> stands for the errors of
  the HTTP client (connection error, timeout), \<open>HTTPError\<close> for \<open>raise_for_status\<close>,
  \<open>ValueError\<close> for "No JSON found in response", \<open>ValidationError\<close> for pydantic.
\<close>

datatype exn =
  RequestException | HTTPError | JSONDecodeError | KeyError | TypeError
  | ValueError | ValidationError

text \<open>
  A Python \<open>float\<close> is an IEEE double: a finite one is the real number it denotes
  exactly, and \<open>json.loads\<close> (a parameter of the model) has already rounded the
  decimal literal it read to the nearest double. \<open>json.loads\<close> also accepts the
  literals \<open>Infinity\<close>, \<open>-Infinity\<close> and \<open>NaN\<close>.
\<close>

datatype pyfloat = Finite real | PosInf | NegInf | NaN

text \<open>
  What \<open>json.loads\<close> returns. A \<open>dict\<close> is an association list read with
  \<^const>\<open>map_of\<close>.
\<close>

datatype json =
  JNull | JBool bool | JInt int | JFloat pyfloat | JStr string
  | JList "json list" | JDict "(string \<times> json) list"

text \<open>\<open>value[key]\<close> with a string key\<close>

definition getitem :: "json \<Rightarrow> string \<Rightarrow> exn + json" where
  "getitem v key =
     (case v of
        JDict kvs \<Rightarrow> (case map_of kvs key of None \<Rightarrow> Inl KeyError | Some x \<Rightarrow> Inr x)
      | _ \<Rightarrow> Inl TypeError)"

section \<open>The environment\<close>

text \<open>
  The code outside the repository that \<open>classify\<close> calls: the HTTP request to the model
  endpoint (\<open>requests.post\<close> with the fixed payload around the prompt and the timeout of
  10 seconds), \<open>json.loads\<close>, and pydantic's conversion to \<open>float\<close> of a value that is
  not a number (the declaration of \<open>confidence\<close> does not ask for strict mode, so
  strings and booleans go through this conversion).
\<close>

record response =
  status_code :: nat
  body :: string

record env =
  requests_post :: "string \<Rightarrow> exn + response"
  json_loads :: "string \<Rightarrow> exn + json"
  lax_float :: "json \<Rightarrow> pyfloat option"

section \<open>Model gateway\<close>

definition newline :: char where
  "newline = CHR 0x0A"

definition quoted :: "string \<Rightarrow> string" where
  "quoted s = CHR 0x22 # s @ [CHR 0x22]"

definition SYSTEM_PROMPT :: string where
  "SYSTEM_PROMPT = concat (map (\<lambda>l. newline # l)
     [''You are a civic complaint classification engine.'',
      [],
      ''Respond ONLY in strict JSON format:'',
      [],
      ''{'',
      ''  '' @ quoted ''intent'' @ '': '' @ quoted ''COMPLAINT'' @ '','',
      ''  '' @ quoted ''department'' @ '': ''
        @ quoted ''SANITATION | WATER | ELECTRICITY | ROADS | PUBLIC_SAFETY | OTHER'' @ '','',
      ''  '' @ quoted ''priority'' @ '': '' @ quoted ''LOW | MEDIUM | HIGH'' @ '','',
      ''  '' @ quoted ''confidence'' @ '': 0.0-1.0'',
      ''}'',
      [],
      ''Rules:'',
      ''- Choose exactly ONE department.'',
      ''- Do NOT combine values.'',
      ''- No explanation text.'',
      ''- No markdown.'',
      ''- No extra fields.'',
      ''- If unsure, choose OTHER.'']) @ [newline]"

text \<open>
  \<open>call_ollama\<close>: post the prompt, \<open>raise_for_status\<close> (an exception for a status
  from 400 to 599), decode the body and read its \<open>"response"\<close> entry.
\<close>

definition call_ollama :: "env \<Rightarrow> string \<Rightarrow> exn + json" where
  "call_ollama e prompt =
     (case requests_post e prompt of
        Inl err \<Rightarrow> Inl err
      | Inr resp \<Rightarrow>
          if 400 \<le> status_code resp \<and> status_code resp < 600 then Inl HTTPError
          else (case json_loads e (body resp) of
                  Inl err \<Rightarrow> Inl err
                | Inr v \<Rightarrow> getitem v ''response''))"

section \<open>Response extraction\<close>

text \<open>
  \<open>re.search(r'\{.*\}', text, re.DOTALL)\<close>. \<open>re_dotstar_close\<close> is the tail
  \<open>.*\}\<close> of the pattern at a fixed position: the greedy star first takes the next
  character and goes on, and gives it back when the rest does not match.
  \<open>re_match_braces\<close> is the pattern at a fixed position, \<open>re_search_braces\<close> tries the
  positions from left to right; the result is \<open>match.group()\<close>.
\<close>

fun re_dotstar_close :: "string \<Rightarrow> string option" where
  "re_dotstar_close [] = None"
| "re_dotstar_close (c # cs) =
     (case re_dotstar_close cs of
        Some m \<Rightarrow> Some (c # m)
      | None \<Rightarrow> if c = CHR ''}'' then Some [c] else None)"

definition re_match_braces :: "string \<Rightarrow> string option" where
  "re_match_braces text =
     (case text of
        [] \<Rightarrow> None
      | c # cs \<Rightarrow>
          if c = CHR ''{''
          then (case re_dotstar_close cs of None \<Rightarrow> None | Some m \<Rightarrow> Some (c # m))
          else None)"

fun re_search_braces :: "string \<Rightarrow> string option" where
  "re_search_braces [] = None"
| "re_search_braces (c # cs) =
     (case re_match_braces (c # cs) of
        Some m \<Rightarrow> Some m
      | None \<Rightarrow> re_search_braces cs)"

text \<open>\<open>extract_json\<close>; \<open>loads\<close> is \<open>json.loads\<close>.\<close>

definition extract_json :: "(string \<Rightarrow> exn + json) \<Rightarrow> string \<Rightarrow> exn + json" where
  "extract_json loads text =
     (case re_search_braces text of
        None \<Rightarrow> Inl ValueError
      | Some m \<Rightarrow> loads m)"

section \<open>Schema validation\<close>

record ClassificationResponse =
  intent :: string
  department :: string
  priority :: string
  confidence :: real

definition intents :: "string list" where
  "intents = [''COMPLAINT'']"

definition departments :: "string list" where
  "departments =
     [''SANITATION'', ''WATER'', ''ELECTRICITY'', ''ROADS'', ''PUBLIC_SAFETY'', ''OTHER'']"

definition priorities :: "string list" where
  "priorities = [''LOW'', ''MEDIUM'', ''HIGH'']"

text \<open>A \<open>Literal[...]\<close> field: the argument must be present and equal to one of the strings.\<close>

definition validate_literal :: "string list \<Rightarrow> json option \<Rightarrow> string option" where
  "validate_literal allowed arg =
     (case arg of
        Some (JStr s) \<Rightarrow> if s \<in> set allowed then Some s else None
      | _ \<Rightarrow> None)"

text \<open>
  A \<open>float\<close> field in pydantic's default mode: a \<open>float\<close> is taken as it is, an \<open>int\<close>
  is converted, a string or a boolean goes through the lax conversion \<open>lax\<close>, anything
  else is an error.
\<close>

definition validate_float :: "(json \<Rightarrow> pyfloat option) \<Rightarrow> json option \<Rightarrow> pyfloat option" where
  "validate_float lax arg =
     (case arg of
        Some (JFloat x) \<Rightarrow> Some x
      | Some (JInt i) \<Rightarrow> Some (Finite (of_int i))
      | Some (JStr s) \<Rightarrow> lax (JStr s)
      | Some (JBool b) \<Rightarrow> lax (JBool b)
      | _ \<Rightarrow> None)"

text \<open>\<open>Field(ge=0.0, le=1.0)\<close>; no comparison holds of \<open>NaN\<close>.\<close>

definition validate_range :: "pyfloat option \<Rightarrow> real option" where
  "validate_range x =
     (case x of
        Some (Finite c) \<Rightarrow> if 0 \<le> c \<and> c \<le> 1 then Some c else None
      | _ \<Rightarrow> None)"

text \<open>
  \<open>ClassificationResponse(**kwargs)\<close>: every field is validated, arguments that name no
  field are ignored, and one failing field raises \<open>ValidationError\<close>.
\<close>

definition ClassificationResponse_init ::
  "(json \<Rightarrow> pyfloat option) \<Rightarrow> (string \<times> json) list \<Rightarrow> exn + ClassificationResponse" where
  "ClassificationResponse_init lax kwargs =
     (case validate_literal intents (map_of kwargs ''intent'') of
        None \<Rightarrow> Inl ValidationError
      | Some i \<Rightarrow>
     (case validate_literal departments (map_of kwargs ''department'') of
        None \<Rightarrow> Inl ValidationError
      | Some d \<Rightarrow>
     (case validate_literal priorities (map_of kwargs ''priority'') of
        None \<Rightarrow> Inl ValidationError
      | Some p \<Rightarrow>
     (case validate_range (validate_float lax (map_of kwargs ''confidence'')) of
        None \<Rightarrow> Inl ValidationError
      | Some c \<Rightarrow>
          Inr \<lparr>intent = i, department = d, priority = p, confidence = c\<rparr>))))"

section \<open>Override rules\<close>

definition electricity_words :: "string list" where
  "electricity_words =
     [''street light'', ''streetlight'', ''power line'',
      ''electricity'', ''transformer'', ''electric pole'']"

definition sanitation_words :: "string list" where
  "sanitation_words = [''garbage'', ''waste'', ''drain'', ''sewage'', ''overflow'', ''trash'']"

definition water_words :: "string list" where
  "water_words =
     [''water supply'', ''pipeline'', ''tap water'', ''water leakage'', ''no water'']"

definition roads_words :: "string list" where
  "roads_words = [''road damage'', ''pothole'', ''road crack'']"

definition safety_words :: "string list" where
  "safety_words = [''fight'', ''harassment'', ''theft'', ''unsafe'', ''crime'']"

definition override_department :: "string \<Rightarrow> string \<Rightarrow> string" where
  "override_department text predicted =
     (let lower = lower text in
      if any_in lower electricity_words then ''ELECTRICITY''
      else if any_in lower sanitation_words then ''SANITATION''
      else if any_in lower water_words then ''WATER''
      else if any_in lower roads_words then ''ROADS''
      else if any_in lower safety_words then ''PUBLIC_SAFETY''
      else predicted)"

definition hazard_words :: "string list" where
  "hazard_words = [''electric shock'', ''live wire'', ''fire'', ''accident'', ''collapse'']"

text \<open>
  \<open>re.search(r'(\d+)\s*day', lower)\<close>. \<open>re_spaces_day\<close> is the tail \<open>\s*day\<close> at a
  fixed position, \<open>re_match_days\<close> the whole pattern at a fixed position, with the
  greedy repetitions taking a character first and giving it back when the rest fails;
  its result is \<open>match.group(1)\<close>. \<open>re_search_days\<close> tries the positions from left to
  right.
\<close>

fun re_spaces_day :: "string \<Rightarrow> bool" where
  "re_spaces_day [] = False"
| "re_spaces_day (c # cs) =
     ((isspace c \<and> re_spaces_day cs) \<or> prefix ''day'' (c # cs))"

fun re_match_days :: "string \<Rightarrow> string option" where
  "re_match_days [] = None"
| "re_match_days (c # cs) =
     (if isdigit c
      then (case re_match_days cs of
              Some ds \<Rightarrow> Some (c # ds)
            | None \<Rightarrow> if re_spaces_day cs then Some [c] else None)
      else None)"

fun re_search_days :: "string \<Rightarrow> string option" where
  "re_search_days [] = None"
| "re_search_days (c # cs) =
     (case re_match_days (c # cs) of
        Some ds \<Rightarrow> Some ds
      | None \<Rightarrow> re_search_days cs)"

definition override_priority :: "string \<Rightarrow> string \<Rightarrow> string" where
  "override_priority text predicted =
     (let lower = lower text in
      if any_in lower hazard_words then ''HIGH''
      else (case re_search_days lower of
              Some ds \<Rightarrow> if 4 \<le> int_of_digits ds then ''HIGH'' else predicted
            | None \<Rightarrow> predicted))"

text \<open>
  \<open>print\<close> appends a line to the standard output; the lines are kept as values.
\<close>

datatype log_line =
  DepartmentChanged string string
  | PriorityChanged string string
  | ClassifierError exn

text \<open>\<open>apply_overrides\<close> returns the updated response and the lines it printed.\<close>

definition apply_overrides ::
  "string \<Rightarrow> ClassificationResponse \<Rightarrow> ClassificationResponse \<times> log_line list" where
  "apply_overrides text validated =
     (let original_department = department validated;
          original_priority = priority validated;
          validated = validated\<lparr>department := override_department text (department validated)\<rparr>;
          validated = validated\<lparr>priority := override_priority text (priority validated)\<rparr>
      in (validated,
          (if original_department \<noteq> department validated
           then [DepartmentChanged original_department (department validated)] else [])
          @ (if original_priority \<noteq> priority validated
             then [PriorityChanged original_priority (priority validated)] else [])))"

section \<open>Classification\<close>

text \<open>
  The double that the literal \<open>0.6\<close> of the source denotes: the multiple of \<open>2^-53\<close>
  nearest to 3/5, a little below it.
\<close>

definition float_0_6 :: real where
  "float_0_6 = 5404319552844595 / 2 ^ 53"

text \<open>
  Step 4 of \<open>classify\<close>: a confidence below the double \<open>0.6\<close> sets the department to
  \<open>OTHER\<close>.
\<close>

definition confidence_enforcement :: "ClassificationResponse \<Rightarrow> ClassificationResponse" where
  "confidence_enforcement validated =
     (if confidence validated < float_0_6 then validated\<lparr>department := ''OTHER''\<rparr>
      else validated)"

definition fallback :: ClassificationResponse where
  "fallback = \<lparr>intent = ''COMPLAINT'', department = ''OTHER'', priority = ''MEDIUM'',
               confidence = 0.5\<rparr>"

text \<open>
  Steps 1 to 3 of \<open>classify\<close>, the part of the \<open>try\<close> block that can raise. A value
  that is not a \<open>str\<close> makes \<open>re.search\<close> raise \<open>TypeError\<close>, and so does \<open>**\<close> on a
  value that is not a \<open>dict\<close>.
\<close>

definition validated_suggestion :: "env \<Rightarrow> string \<Rightarrow> exn + ClassificationResponse" where
  "validated_suggestion e clean_text =
     (let full_prompt = SYSTEM_PROMPT @ newline # ''Complaint: '' @ clean_text in
      case call_ollama e full_prompt of
        Inl err \<Rightarrow> Inl err
      | Inr raw_output \<Rightarrow>
     (case (case raw_output of
              JStr s \<Rightarrow> extract_json (json_loads e) s
            | _ \<Rightarrow> Inl TypeError) of
        Inl err \<Rightarrow> Inl err
      | Inr json_data \<Rightarrow>
     (case json_data of
        JDict kwargs \<Rightarrow> ClassificationResponse_init (lax_float e) kwargs
      | _ \<Rightarrow> Inl TypeError)))"

text \<open>
  \<open>classify\<close>: the result of \<open>model_dump()\<close> (the four fields) or the fallback of the
  \<open>except\<close> branch, with the lines printed on the way.
\<close>

definition classify :: "env \<Rightarrow> string \<Rightarrow> ClassificationResponse \<times> log_line list" where
  "classify e text =
     (let clean_text = sanitize_input text in
      case validated_suggestion e clean_text of
        Inl err \<Rightarrow> (fallback, [ClassifierError err])
      | Inr validated \<Rightarrow> apply_overrides clean_text (confidence_enforcement validated))"

section \<open>The override rules as the specification words them\<close>

text \<open>
  The keyword groups in the order in which the specification lists them, and the
  department of the first group one of whose keywords occurs in the lowercased text.
\<close>

definition keyword_groups :: "(string list \<times> string) list" where
  "keyword_groups =
     [(electricity_words, ''ELECTRICITY''),
      (sanitation_words, ''SANITATION''),
      (water_words, ''WATER''),
      (roads_words, ''ROADS''),
      (safety_words, ''PUBLIC_SAFETY'')]"

fun first_matching_group :: "string \<Rightarrow> (string list \<times> string) list \<Rightarrow> string option" where
  "first_matching_group lowered [] = None"
| "first_matching_group lowered ((words, dept) # groups) =
     (if list_ex (contains lowered) words then Some dept
      else first_matching_group lowered groups)"

text \<open>
  A duration "<integer> day" at the start of \<open>s\<close>: a nonempty run \<open>ds\<close> of decimal
  digits, then whitespace (possibly none), then \<open>day\<close>.
\<close>

definition duration_at :: "string \<Rightarrow> string \<Rightarrow> bool" where
  "duration_at s ds \<longleftrightarrow>
     ds \<noteq> [] \<and> list_all isdigit ds
     \<and> (\<exists>ws rest. s = ds @ ws @ ''day'' @ rest \<and> list_all isspace ws)"

section \<open>Schema validation as the specification words it\<close>

text \<open>
  What the specification asks of a parsed mapping: each of the four fields is present, is
  of its type (a string for the three tags, a number for the confidence) and lies in its
  enumeration or range.
\<close>

definition spec_accepts :: "(string \<times> json) list \<Rightarrow> bool" where
  "spec_accepts kwargs \<longleftrightarrow>
     (case map_of kwargs ''intent'' of Some (JStr s) \<Rightarrow> s \<in> set intents | _ \<Rightarrow> False)
     \<and> (case map_of kwargs ''department'' of
          Some (JStr s) \<Rightarrow> s \<in> set departments | _ \<Rightarrow> False)
     \<and> (case map_of kwargs ''priority'' of
          Some (JStr s) \<Rightarrow> s \<in> set priorities | _ \<Rightarrow> False)
     \<and> (case map_of kwargs ''confidence'' of
          Some (JFloat (Finite c)) \<Rightarrow> 0 \<le> c \<and> c \<le> 1
        | Some (JInt i) \<Rightarrow> 0 \<le> i \<and> i \<le> 1
        | _ \<Rightarrow> False)"

section \<open>Environments for the examples\<close>

text \<open>
  A lax conversion for the examples: a string of decimal digits, optionally followed by a
  point and more digits, is read as the number it spells (the strings that pydantic's
  conversion table lists for \<open>str\<close> to \<open>float\<close>); nothing else is converted.
\<close>

definition decimal_lax_float :: "json \<Rightarrow> pyfloat option" where
  "decimal_lax_float v =
     (case v of
        JStr s \<Rightarrow>
          (let whole = takeWhile isdigit s; rest = dropWhile isdigit s in
           if whole = [] then None
           else (case rest of
                   [] \<Rightarrow> Some (Finite (of_nat (int_of_digits whole)))
                 | c # decimals \<Rightarrow>
                     if c = CHR ''.'' \<and> decimals \<noteq> [] \<and> list_all isdigit decimals
                     then Some (Finite (of_nat (int_of_digits whole)
                                        + of_nat (int_of_digits decimals) / 10 ^ length decimals))
                     else None))
      | _ \<Rightarrow> None)"

text \<open>
  An endpoint that cannot be reached, and an endpoint that answers \<open>reply\<close> to every
  prompt, with \<open>json.loads\<close> given by a table of the texts that occur.
\<close>

definition unreachable_env :: env where
  "unreachable_env =
     \<lparr>requests_post = (\<lambda>prompt. Inl RequestException),
      json_loads = (\<lambda>s. Inl JSONDecodeError),
      lax_float = decimal_lax_float\<rparr>"

definition table_env :: "response \<Rightarrow> (string \<times> json) list \<Rightarrow> env" where
  "table_env reply table =
     \<lparr>requests_post = (\<lambda>prompt. Inr reply),
      json_loads = (\<lambda>s. case map_of table s of None \<Rightarrow> Inl JSONDecodeError | Some v \<Rightarrow> Inr v),
      lax_float = decimal_lax_float\<rparr>"

text \<open>
  A reply of the model, prose around the object, and the body of the HTTP response that
  carries it; \<open>json_string\<close> writes a text as a JSON string.
\<close>

definition json_string :: "string \<Rightarrow> string" where
  "json_string s = quoted (concat (map (\<lambda>c. if c = CHR 0x22 then [CHR 0x5C, c] else [c]) s))"

text \<open>The double that \<open>json.loads\<close> reads from the literal \<open>0.59\<close>.\<close>

definition float_0_59 :: real where
  "float_0_59 = 5314247560297185 / 2 ^ 53"

definition roads_object :: string where
  "roads_object =
     ''{'' @ quoted ''intent'' @ '': '' @ quoted ''COMPLAINT'' @ '', ''
     @ quoted ''department'' @ '': '' @ quoted ''ROADS'' @ '', ''
     @ quoted ''priority'' @ '': '' @ quoted ''LOW'' @ '', ''
     @ quoted ''confidence'' @ '': 0.59}''"

definition roads_raw :: string where
  "roads_raw = ''Here is the result: '' @ roads_object @ '' Done.''"

definition body_of :: "string \<Rightarrow> string" where
  "body_of raw = ''{'' @ quoted ''response'' @ '': '' @ json_string raw @ ''}''"

definition roads_kwargs :: "(string \<times> json) list" where
  "roads_kwargs =
     [(''intent'', JStr ''COMPLAINT''), (''department'', JStr ''ROADS''),
      (''priority'', JStr ''LOW''), (''confidence'', JFloat (Finite float_0_59))]"

definition roads_env :: env where
  "roads_env =
     table_env \<lparr>status_code = 200, body = body_of roads_raw\<rparr>
       [(body_of roads_raw, JDict [(''response'', JStr roads_raw)]),
        (roads_object, JDict roads_kwargs)]"

text \<open>
  A reply whose confidence is written \<open>0.59999999999999999\<close>, which \<open>json.loads\<close>
  reads as the double \<open>0.6\<close>.
\<close>

definition boundary_object :: string where
  "boundary_object =
     ''{'' @ quoted ''intent'' @ '': '' @ quoted ''COMPLAINT'' @ '', ''
     @ quoted ''department'' @ '': '' @ quoted ''ROADS'' @ '', ''
     @ quoted ''priority'' @ '': '' @ quoted ''LOW'' @ '', ''
     @ quoted ''confidence'' @ '': 0.59999999999999999}''"

definition boundary_env :: env where
  "boundary_env =
     table_env \<lparr>status_code = 200, body = body_of boundary_object\<rparr>
       [(body_of boundary_object, JDict [(''response'', JStr boundary_object)]),
        (boundary_object,
         JDict [(''intent'', JStr ''COMPLAINT''), (''department'', JStr ''ROADS''),
                (''priority'', JStr ''LOW''), (''confidence'', JFloat (Finite float_0_6))])]"

text \<open>
  An endpoint that answers with the status 300 (Multiple Choices) and a body that holds a
  classification.
\<close>

definition water_object :: string where
  "water_object =
     ''{'' @ quoted ''intent'' @ '': '' @ quoted ''COMPLAINT'' @ '', ''
     @ quoted ''department'' @ '': '' @ quoted ''WATER'' @ '', ''
     @ quoted ''priority'' @ '': '' @ quoted ''LOW'' @ '', ''
     @ quoted ''confidence'' @ '': 0.75}''"

definition multiple_choices_env :: env where
  "multiple_choices_env =
     table_env \<lparr>status_code = 300, body = body_of water_object\<rparr>
       [(body_of water_object, JDict [(''response'', JStr water_object)]),
        (water_object,
         JDict [(''intent'', JStr ''COMPLAINT''), (''department'', JStr ''WATER''),
                (''priority'', JStr ''LOW''), (''confidence'', JFloat (Finite 0.75))])]"

text \<open>
  Endpoints that fail: a server error, a reply without an object, a reply whose object
  is not JSON, and a reply whose object names a department outside the enumeration.
\<close>

definition server_error_env :: env where
  "server_error_env = table_env \<lparr>status_code = 503, body = ''Service Unavailable''\<rparr> []"

definition prose_env :: env where
  "prose_env =
     table_env \<lparr>status_code = 200, body = body_of ''I cannot classify this.''\<rparr>
       [(body_of ''I cannot classify this.'',
         JDict [(''response'', JStr ''I cannot classify this.'')])]"

definition malformed_env :: env where
  "malformed_env =
     table_env \<lparr>status_code = 200, body = body_of ''{department: ROADS,}''\<rparr>
       [(body_of ''{department: ROADS,}'', JDict [(''response'', JStr ''{department: ROADS,}'')])]"

definition parks_object :: string where
  "parks_object =
     ''{'' @ quoted ''intent'' @ '': '' @ quoted ''COMPLAINT'' @ '', ''
     @ quoted ''department'' @ '': '' @ quoted ''PARKS'' @ '', ''
     @ quoted ''priority'' @ '': '' @ quoted ''LOW'' @ '', ''
     @ quoted ''confidence'' @ '': 0.9}''"

definition parks_env :: env where
  "parks_env =
     table_env \<lparr>status_code = 200, body = body_of parks_object\<rparr>
       [(body_of parks_object, JDict [(''response'', JStr parks_object)]),
        (parks_object,
         JDict [(''intent'', JStr ''COMPLAINT''), (''department'', JStr ''PARKS''),
                (''priority'', JStr ''LOW''), (''confidence'', JFloat (Finite 0.9))])]"

section \<open>The invariant of a classification result\<close>

definition well_formed :: "ClassificationResponse \<Rightarrow> bool" where
  "well_formed r \<longleftrightarrow>
     intent r = ''COMPLAINT'' \<and> department r \<in> set departments
     \<and> priority r \<in> set priorities \<and> 0 \<le> confidence r \<and> confidence r \<le> 1"

section \<open>Properties of the sanitizer\<close>

lemma strip_decompose:
  "\<exists>pre post. text = pre @ strip text @ post \<and> list_all isspace pre \<and> list_all isspace post"
proof -
  let ?a = "takeWhile isspace text"
  let ?b = "dropWhile isspace text"
  let ?c = "takeWhile isspace (rev ?b)"
  have 1: "text = ?a @ ?b" by simp
  have 2: "rev ?b = ?c @ dropWhile isspace (rev ?b)" by simp
  have "?b = rev (dropWhile isspace (rev ?b)) @ rev ?c"
    using 2 by (metis rev_append rev_rev_ident)
  then have "text = ?a @ strip text @ rev ?c" unfolding strip_def using 1 by simp
  moreover have "list_all isspace ?a" by (simp add: list_all_iff) (meson set_takeWhileD)
  moreover have "list_all isspace (rev ?c)" by (simp add: list_all_iff) (meson set_takeWhileD)
  ultimately show ?thesis by blast
qed

lemma strip_ends:
  assumes "strip text \<noteq> []"
  shows "\<not> isspace (hd (strip text))" and "\<not> isspace (last (strip text))"
proof -
  let ?b = "dropWhile isspace text"
  let ?d = "dropWhile isspace (rev ?b)"
  have d: "?d \<noteq> []" using assms by (simp add: strip_def)
  then have "\<not> isspace (hd ?d)" by (rule hd_dropWhile)
  then show "\<not> isspace (last (strip text))" using d by (simp add: strip_def last_rev)
  have b: "?b \<noteq> []" using d by (metis dropWhile.simps(1) rev.simps(1))
  then have hb: "\<not> isspace (hd ?b)" by (rule hd_dropWhile)
  have "hd (strip text) = last ?d" using d by (simp add: strip_def hd_rev)
  also have "\<dots> = last (rev ?b)" using d
    by (metis append_Nil2 dropWhile_eq_Nil_conv last_appendR takeWhile_dropWhile_id)
  also have "\<dots> = hd ?b" using b by (simp add: last_rev)
  finally show "\<not> isspace (hd (strip text))" using hb by simp
qed

text \<open>
  Claim C6, as stated, at a string of 1005 characters (ten spaces, then 995 letters):
  the string is longer than 1000 characters and its sanitized text has 995 characters,
  not 1000.
\<close>

theorem sanitize_input_long_counterexample:
  "1000 < length (replicate 10 (CHR '' '') @ replicate 995 (CHR ''a''))
   \<and> length (sanitize_input (replicate 10 (CHR '' '') @ replicate 995 (CHR ''a''))) = 995"
  by (simp add: sanitize_input_def strip_def isspace_def dropWhile_append)

text \<open>
  Claim C6, amended: \<open>sanitize_input\<close> is defined on every string (the empty one
  included) and returns the first 1000 characters of the trimmed input, where the trimmed
  input is the input without a leading and a trailing run of whitespace and neither
  begins nor ends with whitespace. The result has at most 1000 characters, and exactly
  1000 when the trimmed input (rather than the input) is longer than 1000 characters.
\<close>

theorem sanitize_input_spec:
  "sanitize_input text = take 1000 (strip text)
   \<and> length (sanitize_input text) \<le> 1000
   \<and> (1000 < length (strip text) \<longrightarrow> length (sanitize_input text) = 1000)
   \<and> (\<exists>pre post. text = pre @ strip text @ post
         \<and> list_all isspace pre \<and> list_all isspace post)
   \<and> (strip text \<noteq> []
         \<longrightarrow> \<not> isspace (hd (strip text)) \<and> \<not> isspace (last (strip text)))
   \<and> sanitize_input [] = []"
  using strip_decompose [of "text"] strip_ends [of "text"]
  by (simp add: sanitize_input_def strip_def)

theorem sanitize_input_spec_witness:
  "1000 < length (strip (CHR '' '' # replicate 1001 (CHR ''a'') @ '' ''))
   \<and> strip (CHR '' '' # replicate 1001 (CHR ''a'') @ '' '') \<noteq> []
   \<and> length (sanitize_input (CHR '' '' # replicate 1001 (CHR ''a'') @ '' '')) = 1000
   \<and> \<not> isspace (hd (strip (CHR '' '' # replicate 1001 (CHR ''a'') @ '' '')))"
  using sanitize_input_spec [of "CHR '' '' # replicate 1001 (CHR ''a'') @ '' ''"]
  by (simp add: strip_def isspace_def dropWhile_append)

section \<open>Properties of the response extractor\<close>


lemma re_dotstar_close_None: "re_dotstar_close cs = None \<longleftrightarrow> CHR ''}'' \<notin> set cs"
  by (induction cs) (auto split: option.splits)

lemma re_dotstar_close_last:
  "CHR ''}'' \<notin> set post \<Longrightarrow> re_dotstar_close (mid @ CHR ''}'' # post) = Some (mid @ [CHR ''}''])"
proof (induction mid)
  case Nil
  then have "re_dotstar_close post = None" by (simp add: re_dotstar_close_None)
  then show ?case by simp
next
  case (Cons c mid)
  then show ?case by simp
qed

lemma re_dotstar_close_Some:
  "re_dotstar_close cs = Some m \<Longrightarrow>
     \<exists>mid post. cs = mid @ CHR ''}'' # post \<and> m = mid @ [CHR ''}''] \<and> CHR ''}'' \<notin> set post"
proof (induction cs arbitrary: m)
  case Nil
  then show ?case by simp
next
  case (Cons c cs)
  show ?case
  proof (cases "re_dotstar_close cs")
    case None
    with Cons.prems have "c = CHR ''}''" and "m = [c]" by (auto split: if_splits)
    moreover from None have "CHR ''}'' \<notin> set cs" by (simp add: re_dotstar_close_None)
    ultimately have "c # cs = [] @ CHR ''}'' # cs \<and> m = [] @ [CHR ''}''] \<and> CHR ''}'' \<notin> set cs"
      by simp
    then show ?thesis by blast
  next
    case (Some m')
    with Cons.prems have m: "m = c # m'" by simp
    from Cons.IH [OF Some] obtain mid post
      where "cs = mid @ CHR ''}'' # post" "m' = mid @ [CHR ''}'']" "CHR ''}'' \<notin> set post"
      by blast
    with m have "c # cs = (c # mid) @ CHR ''}'' # post \<and> m = (c # mid) @ [CHR ''}'']
        \<and> CHR ''}'' \<notin> set post" by simp
    then show ?thesis by blast
  qed
qed

lemma re_search_braces_span:
  assumes "CHR ''{'' \<notin> set pre" and "CHR ''}'' \<notin> set post"
  shows "re_search_braces (pre @ CHR ''{'' # mid @ CHR ''}'' # post)
           = Some (CHR ''{'' # mid @ [CHR ''}''])"
  using assms
proof (induction pre)
  case Nil
  then show ?case by (simp add: re_match_braces_def re_dotstar_close_last)
next
  case (Cons c pre)
  then show ?case by (auto simp: re_match_braces_def)
qed

lemma re_search_braces_Some:
  "re_search_braces text = Some m \<Longrightarrow>
     \<exists>pre mid post. text = pre @ CHR ''{'' # mid @ CHR ''}'' # post
        \<and> m = CHR ''{'' # mid @ [CHR ''}'']
        \<and> CHR ''{'' \<notin> set pre \<and> CHR ''}'' \<notin> set post"
proof (induction "text")
  case Nil
  then show ?case by simp
next
  case (Cons c cs)
  show ?case
  proof (cases "re_match_braces (c # cs)")
    case None
    with Cons.prems have "re_search_braces cs = Some m" by simp
    from Cons.IH [OF this] obtain pre mid post
      where d: "cs = pre @ CHR ''{'' # mid @ CHR ''}'' # post" "m = CHR ''{'' # mid @ [CHR ''}'']"
        "CHR ''{'' \<notin> set pre" "CHR ''}'' \<notin> set post" by blast
    have "c \<noteq> CHR ''{''"
    proof
      assume c: "c = CHR ''{''"
      from d(1) have "CHR ''}'' \<in> set cs" by simp
      then have "re_dotstar_close cs \<noteq> None" by (simp add: re_dotstar_close_None)
      with c None show False by (auto simp: re_match_braces_def split: option.splits)
    qed
    with d have "c # cs = (c # pre) @ CHR ''{'' # mid @ CHR ''}'' # post
        \<and> m = CHR ''{'' # mid @ [CHR ''}'']
        \<and> CHR ''{'' \<notin> set (c # pre) \<and> CHR ''}'' \<notin> set post" by simp
    then show ?thesis by blast
  next
    case (Some m')
    with Cons.prems have m: "m' = m" by simp
    from Some have c: "c = CHR ''{''"
      by (auto simp: re_match_braces_def split: if_splits)
    with Some m obtain r where r: "re_dotstar_close cs = Some r" "m = c # r"
      by (auto simp: re_match_braces_def split: option.splits)
    from re_dotstar_close_Some [OF r(1)] obtain mid post
      where "cs = mid @ CHR ''}'' # post" "r = mid @ [CHR ''}'']" "CHR ''}'' \<notin> set post"
      by blast
    with c r(2) have "c # cs = [] @ CHR ''{'' # mid @ CHR ''}'' # post
        \<and> m = CHR ''{'' # mid @ [CHR ''}'']
        \<and> CHR ''{'' \<notin> set [] \<and> CHR ''}'' \<notin> set post" by simp
    then show ?thesis by blast
  qed
qed

lemma re_search_braces_None:
  "re_search_braces text = None \<Longrightarrow>
     \<not> (\<exists>pre mid post. text = pre @ CHR ''{'' # mid @ CHR ''}'' # post)"
proof (induction "text")
  case Nil
  then show ?case by simp
next
  case (Cons c cs)
  from Cons.prems have mn: "re_match_braces (c # cs) = None" and sn: "re_search_braces cs = None"
    by (auto split: option.splits)
  show ?case
  proof
    assume "\<exists>pre mid post. c # cs = pre @ CHR ''{'' # mid @ CHR ''}'' # post"
    then obtain pre mid post where d: "c # cs = pre @ CHR ''{'' # mid @ CHR ''}'' # post" by blast
    show False
    proof (cases pre)
      case Nil
      with d have "c = CHR ''{''" and "CHR ''}'' \<in> set cs" by auto
      then have "re_match_braces (c # cs) \<noteq> None"
        by (auto simp: re_match_braces_def re_dotstar_close_None split: option.splits)
      with mn show False by simp
    next
      case (Cons p pre')
      with d have "cs = pre' @ CHR ''{'' # mid @ CHR ''}'' # post" by simp
      with Cons.IH [OF sn] show False by blast
    qed
  qed
qed

text \<open>
  Claim C8: \<open>extract_json\<close> hands to \<open>json.loads\<close> exactly the part of the text
  from its first \<open>{\<close> to its last \<open>}\<close> and returns what \<open>json.loads\<close> returns
  on it, its error included: when the text is \<open>pre\<close>, \<open>{\<close>, \<open>mid\<close>, \<open>}\<close>, \<open>post\<close>
  with no \<open>{\<close> in \<open>pre\<close> and no \<open>}\<close> in \<open>post\<close>, the argument is
  \<open>{\<close>, \<open>mid\<close>, \<open>}\<close>, whatever braces \<open>mid\<close> holds. Every text with a \<open>{\<close>
  that has a \<open>}\<close> somewhere after it splits in this way, and every other text gives
  the extraction error (\<open>ValueError\<close>).
\<close>

theorem extract_json_spec:
  "(text = pre @ CHR ''{'' # mid @ CHR ''}'' # post
      \<and> CHR ''{'' \<notin> set pre \<and> CHR ''}'' \<notin> set post
    \<longrightarrow> extract_json loads text = loads (CHR ''{'' # mid @ [CHR ''}'']))
   \<and> ((\<exists>a b c. text = a @ CHR ''{'' # b @ CHR ''}'' # c)
    \<longrightarrow> (\<exists>a b c. text = a @ CHR ''{'' # b @ CHR ''}'' # c
          \<and> CHR ''{'' \<notin> set a \<and> CHR ''}'' \<notin> set c
          \<and> extract_json loads text = loads (CHR ''{'' # b @ [CHR ''}''])))
   \<and> (\<not> (\<exists>a b c. text = a @ CHR ''{'' # b @ CHR ''}'' # c)
    \<longrightarrow> extract_json loads text = Inl ValueError)"
proof (intro conjI impI)
  assume "text = pre @ CHR ''{'' # mid @ CHR ''}'' # post
      \<and> CHR ''{'' \<notin> set pre \<and> CHR ''}'' \<notin> set post"
  then show "extract_json loads text = loads (CHR ''{'' # mid @ [CHR ''}''])"
    by (simp add: extract_json_def re_search_braces_span)
next
  assume ex: "\<exists>a b c. text = a @ CHR ''{'' # b @ CHR ''}'' # c"
  show "\<exists>a b c. text = a @ CHR ''{'' # b @ CHR ''}'' # c
          \<and> CHR ''{'' \<notin> set a \<and> CHR ''}'' \<notin> set c
          \<and> extract_json loads text = loads (CHR ''{'' # b @ [CHR ''}''])"
  proof (cases "re_search_braces text")
    case None
    with re_search_braces_None ex show ?thesis by blast
  next
    case (Some m)
    from re_search_braces_Some [OF Some] obtain a b c
      where "text = a @ CHR ''{'' # b @ CHR ''}'' # c" "m = CHR ''{'' # b @ [CHR ''}'']"
        "CHR ''{'' \<notin> set a" "CHR ''}'' \<notin> set c" by blast
    moreover from Some have "extract_json loads text = loads m" by (simp add: extract_json_def)
    ultimately show ?thesis by blast
  qed
next
  assume no: "\<not> (\<exists>a b c. text = a @ CHR ''{'' # b @ CHR ''}'' # c)"
  have "re_search_braces text = None"
  proof (cases "re_search_braces text")
    case None
    then show ?thesis .
  next
    case (Some m)
    from re_search_braces_Some [OF Some] no show ?thesis by blast
  qed
  then show "extract_json loads text = Inl ValueError" by (simp add: extract_json_def)
qed

theorem extract_json_spec_witness:
  "extract_json (\<lambda>s. Inr (JStr s)) ''Sure: {a{b}c} and } more'' = Inr (JStr ''{a{b}c} and }'')
   \<and> extract_json (\<lambda>s. Inl JSONDecodeError) ''Sure: {a{b}c} and } more'' = Inl JSONDecodeError
   \<and> extract_json (\<lambda>s. Inr (JStr s)) ''} no json {'' = Inl ValueError"
proof -
  have "re_search_braces ''} no json {'' = None"
    by (simp add: re_match_braces_def)
  then have n: "\<not> (\<exists>a b c. ''} no json {'' = a @ CHR ''{'' # b @ CHR ''}'' # c)"
    by (rule re_search_braces_None)
  show ?thesis
    using extract_json_spec [of "''Sure: {a{b}c} and } more''" "''Sure: ''" "''a{b}c} and ''" "'' more''" "\<lambda>s. Inr (JStr s)"]
      extract_json_spec [of "''Sure: {a{b}c} and } more''" "''Sure: ''" "''a{b}c} and ''" "'' more''" "\<lambda>s. Inl JSONDecodeError"]
      extract_json_spec [of "''} no json {''" "[]" "[]" "[]" "\<lambda>s. Inr (JStr s)"] n
    by simp
qed

section \<open>Properties of the department override\<close>


lemma contains_iff: "contains text word \<longleftrightarrow> (\<exists>a b. text = a @ word @ b)"
proof (induction "text")
  case Nil
  then show ?case by auto
next
  case (Cons c cs)
  show ?case
  proof
    assume "contains (c # cs) word"
    then consider "prefix word (c # cs)" | "contains cs word" by auto
    then show "\<exists>a b. c # cs = a @ word @ b"
    proof cases
      case 1
      then obtain b where "c # cs = word @ b" by (auto simp: prefix_def)
      then have "c # cs = [] @ word @ b" by simp
      then show ?thesis by blast
    next
      case 2
      with Cons.IH obtain a b where "cs = a @ word @ b" by blast
      then have "c # cs = (c # a) @ word @ b" by simp
      then show ?thesis by blast
    qed
  next
    assume "\<exists>a b. c # cs = a @ word @ b"
    then obtain a b where e: "c # cs = a @ word @ b" by blast
    show "contains (c # cs) word"
    proof (cases a)
      case Nil
      with e have "prefix word (c # cs)" by (simp add: prefix_def)
      then show ?thesis by simp
    next
      case (Cons x a')
      with e have "cs = a' @ word @ b" by simp
      with Cons.IH have "contains cs word" by blast
      then show ?thesis by simp
    qed
  qed
qed

lemma contains_lower: "contains text word \<Longrightarrow> contains (lower text) (lower word)"
  unfolding contains_iff lower_def by (metis map_append)

lemma first_matching_group_keyword_groups:
  "first_matching_group l keyword_groups =
     (if any_in l electricity_words then Some ''ELECTRICITY''
      else if any_in l sanitation_words then Some ''SANITATION''
      else if any_in l water_words then Some ''WATER''
      else if any_in l roads_words then Some ''ROADS''
      else if any_in l safety_words then Some ''PUBLIC_SAFETY''
      else None)"
  by (simp add: keyword_groups_def any_in_def)

lemma transformer_electricity: "contains l ''transformer'' \<Longrightarrow> any_in l electricity_words"
  by (simp add: any_in_def electricity_words_def)

lemma lower_transformer: "lower ''transformer'' = ''transformer''"
  by code_simp

text \<open>
  Claim C3: \<open>override_department\<close> returns the department of the first keyword group, in
  the order electricity, sanitation, water, roads, public safety, that has a keyword in
  the lowercased text, whatever the predicted department is, and the predicted department
  when no group has one. A text that contains both "transformer" and "garbage" (in the
  text itself or in its lowercased form) gives \<open>ELECTRICITY\<close> for every prediction.
\<close>

theorem override_department_spec:
  "override_department text predicted =
     (case first_matching_group (lower text) keyword_groups of
        Some dept \<Rightarrow> dept
      | None \<Rightarrow> predicted)
   \<and> (contains text ''transformer'' \<and> contains text ''garbage''
        \<longrightarrow> override_department text predicted = ''ELECTRICITY'')
   \<and> (contains (lower text) ''transformer'' \<and> contains (lower text) ''garbage''
        \<longrightarrow> override_department text predicted = ''ELECTRICITY'')
   \<and> (first_matching_group (lower text) keyword_groups = None
        \<longrightarrow> override_department text predicted = predicted)"
proof -
  have eq: "override_department text predicted =
     (case first_matching_group (lower text) keyword_groups of
        Some dept \<Rightarrow> dept
      | None \<Rightarrow> predicted)"
    by (simp add: override_department_def first_matching_group_keyword_groups Let_def)
  have low: "contains (lower text) ''transformer''
      \<Longrightarrow> override_department text predicted = ''ELECTRICITY''"
    by (simp add: override_department_def Let_def transformer_electricity)
  have "contains text ''transformer'' \<Longrightarrow> contains (lower text) ''transformer''"
    using contains_lower [of "text" "''transformer''"] by (simp add: lower_transformer)
  with low eq show ?thesis by simp
qed

theorem override_department_spec_witness:
  "contains ''Sparks from the transformer next to the garbage dump'' ''transformer''
   \<and> contains ''Sparks from the transformer next to the garbage dump'' ''garbage''
   \<and> override_department ''Sparks from the transformer next to the garbage dump'' ''WATER''
       = ''ELECTRICITY''
   \<and> first_matching_group (lower ''The park bench is broken'') keyword_groups = None
   \<and> override_department ''The park bench is broken'' ''OTHER'' = ''OTHER''"
proof -
  have 1: "contains ''Sparks from the transformer next to the garbage dump'' ''transformer''"
    by code_simp
  have 2: "contains ''Sparks from the transformer next to the garbage dump'' ''garbage''"
    by code_simp
  have 3: "first_matching_group (lower ''The park bench is broken'') keyword_groups = None"
    by code_simp
  from 1 2
    override_department_spec [of "''Sparks from the transformer next to the garbage dump''" "''WATER''"]
  have 4: "override_department ''Sparks from the transformer next to the garbage dump'' ''WATER''
       = ''ELECTRICITY''" by blast
  from 3 override_department_spec [of "''The park bench is broken''" "''OTHER''"]
  have 5: "override_department ''The park bench is broken'' ''OTHER'' = ''OTHER''" by blast
  from 1 2 3 4 5 show ?thesis by blast
qed

section \<open>Properties of the priority override\<close>


lemma isspace_not_isdigit: "isspace c \<Longrightarrow> \<not> isdigit c"
  by (auto simp: isspace_def isdigit_def Let_def)

lemma not_isdigit_d: "\<not> isdigit (CHR ''d'')"
  by (simp add: isdigit_def)

lemma not_isspace_d: "\<not> isspace (CHR ''d'')"
  by (simp add: isspace_def)

lemma re_spaces_day_iff:
  "re_spaces_day s \<longleftrightarrow> (\<exists>ws rest. s = ws @ ''day'' @ rest \<and> list_all isspace ws)"
proof (induction s)
  case Nil
  then show ?case by simp
next
  case (Cons c cs)
  show ?case
  proof
    assume "re_spaces_day (c # cs)"
    then consider "isspace c" "re_spaces_day cs" | "prefix ''day'' (c # cs)" by auto
    then show "\<exists>ws rest. c # cs = ws @ ''day'' @ rest \<and> list_all isspace ws"
    proof cases
      case 1
      with Cons.IH obtain ws rest where "cs = ws @ ''day'' @ rest" "list_all isspace ws" by blast
      with 1 have "c # cs = (c # ws) @ ''day'' @ rest \<and> list_all isspace (c # ws)" by simp
      then show ?thesis by blast
    next
      case 2
      then obtain rest where "c # cs = ''day'' @ rest" by (auto simp: prefix_def)
      then have "c # cs = [] @ ''day'' @ rest \<and> list_all isspace []" by simp
      then show ?thesis by blast
    qed
  next
    assume "\<exists>ws rest. c # cs = ws @ ''day'' @ rest \<and> list_all isspace ws"
    then obtain ws rest where e: "c # cs = ws @ ''day'' @ rest" and sp: "list_all isspace ws"
      by blast
    show "re_spaces_day (c # cs)"
    proof (cases ws)
      case Nil
      with e have "prefix ''day'' (c # cs)" by (simp add: prefix_def)
      then show ?thesis by simp
    next
      case (Cons w ws')
      with e sp have "c = w" "isspace w" "cs = ws' @ ''day'' @ rest" "list_all isspace ws'"
        by simp_all
      with Cons.IH have "re_spaces_day cs" by blast
      with \<open>c = w\<close> \<open>isspace w\<close> show ?thesis by simp
    qed
  qed
qed

lemma re_spaces_day_no_digit: "re_spaces_day s \<Longrightarrow> re_match_days s = None"
  by (cases s) (auto simp: isspace_not_isdigit not_isdigit_d)

lemma re_match_days_sound:
  "re_match_days s = Some ds \<Longrightarrow>
     ds \<noteq> [] \<and> list_all isdigit ds \<and> (\<exists>t. s = ds @ t \<and> re_spaces_day t)"
proof (induction s arbitrary: ds)
  case Nil
  then show ?case by simp
next
  case (Cons c cs)
  from Cons.prems have d: "isdigit c" by (auto split: if_splits)
  show ?case
  proof (cases "re_match_days cs")
    case None
    with Cons.prems d have "ds = [c]" "re_spaces_day cs" by (auto split: if_splits)
    with d show ?thesis by simp
  next
    case (Some ds')
    with Cons.prems d have ds: "ds = c # ds'" by simp
    from Cons.IH [OF Some] obtain t where "ds' \<noteq> []" "list_all isdigit ds'" "cs = ds' @ t"
      "re_spaces_day t" by blast
    with ds d show ?thesis by simp
  qed
qed

lemma re_match_days_complete:
  "ds \<noteq> [] \<Longrightarrow> list_all isdigit ds \<Longrightarrow> re_spaces_day t \<Longrightarrow> re_match_days (ds @ t) = Some ds"
proof (induction ds)
  case Nil
  then show ?case by simp
next
  case (Cons c ds)
  show ?case
  proof (cases "ds = []")
    case True
    with Cons.prems show ?thesis by (simp add: re_spaces_day_no_digit)
  next
    case False
    with Cons have "re_match_days (ds @ t) = Some ds" by simp
    with Cons.prems show ?thesis by simp
  qed
qed

lemma re_match_days_iff: "re_match_days s = Some ds \<longleftrightarrow> duration_at s ds"
proof
  assume "re_match_days s = Some ds"
  from re_match_days_sound [OF this] obtain t
    where "ds \<noteq> []" "list_all isdigit ds" "s = ds @ t" "re_spaces_day t" by blast
  then show "duration_at s ds"
    unfolding duration_at_def re_spaces_day_iff by auto
next
  assume "duration_at s ds"
  then obtain ws rest where "ds \<noteq> []" "list_all isdigit ds" "s = ds @ ws @ ''day'' @ rest"
    "list_all isspace ws" unfolding duration_at_def by blast
  moreover from this have "re_spaces_day (ws @ ''day'' @ rest)"
    unfolding re_spaces_day_iff by blast
  ultimately show "re_match_days s = Some ds" by (simp add: re_match_days_complete)
qed

lemma re_match_days_None_iff: "re_match_days s = None \<longleftrightarrow> (\<forall>ds. \<not> duration_at s ds)"
  by (metis re_match_days_iff option.exhaust option.distinct(1))

lemma re_search_days_first:
  "(\<forall>k<length pre. \<forall>d. \<not> duration_at (drop k (pre @ s)) d) \<Longrightarrow> duration_at s ds
     \<Longrightarrow> re_search_days (pre @ s) = Some ds"
proof (induction pre)
  case Nil
  then have m: "re_match_days s = Some ds" by (simp add: re_match_days_iff)
  then show ?case by (cases s) simp_all
next
  case (Cons c pre)
  from Cons.prems(1) have "\<forall>d. \<not> duration_at (drop 0 ((c # pre) @ s)) d" by blast
  then have n: "re_match_days (c # pre @ s) = None" unfolding re_match_days_None_iff by simp
  have "\<forall>k<length pre. \<forall>d. \<not> duration_at (drop k (pre @ s)) d"
  proof (intro allI impI)
    fix k d
    assume "k < length pre"
    then have "Suc k < length (c # pre)" by simp
    with Cons.prems(1) have "\<not> duration_at (drop (Suc k) ((c # pre) @ s)) d" by blast
    then show "\<not> duration_at (drop k (pre @ s)) d" by simp
  qed
  with Cons.IH Cons.prems(2) have "re_search_days (pre @ s) = Some ds" by blast
  with n show ?case by simp
qed

lemma re_search_days_none:
  "(\<forall>k\<le>length s. \<forall>d. \<not> duration_at (drop k s) d) \<Longrightarrow> re_search_days s = None"
proof (induction s)
  case Nil
  then show ?case by simp
next
  case (Cons c cs)
  from Cons.prems have "\<forall>d. \<not> duration_at (drop 0 (c # cs)) d" by blast
  then have n: "re_match_days (c # cs) = None" unfolding re_match_days_None_iff by simp
  have "\<forall>k\<le>length cs. \<forall>d. \<not> duration_at (drop k cs) d"
  proof (intro allI impI)
    fix k d
    assume "k \<le> length cs"
    then have "Suc k \<le> length (c # cs)" by simp
    with Cons.prems have "\<not> duration_at (drop (Suc k) (c # cs)) d" by blast
    then show "\<not> duration_at (drop k cs) d" by simp
  qed
  with Cons.IH have "re_search_days cs = None" by blast
  with n show ?case by simp
qed

lemma re_search_days_Some:
  "re_search_days s = Some ds \<Longrightarrow>
     \<exists>pre t. s = pre @ t \<and> duration_at t ds
        \<and> (\<forall>k<length pre. \<forall>d. \<not> duration_at (drop k s) d)"
proof (induction s)
  case Nil
  then show ?case by simp
next
  case (Cons c cs)
  show ?case
  proof (cases "re_match_days (c # cs)")
    case (Some ds')
    with Cons.prems have "ds' = ds" by simp
    with Some have "duration_at (c # cs) ds" unfolding re_match_days_iff by blast
    then have "c # cs = [] @ (c # cs) \<and> duration_at (c # cs) ds
        \<and> (\<forall>k<length ([]::string). \<forall>d. \<not> duration_at (drop k (c # cs)) d)" by simp
    then show ?thesis by blast
  next
    case None
    with Cons.prems have "re_search_days cs = Some ds" by simp
    from Cons.IH [OF this] obtain pre t where p: "cs = pre @ t" "duration_at t ds"
      "\<forall>k<length pre. \<forall>d. \<not> duration_at (drop k cs) d" by blast
    have "\<forall>k<length (c # pre). \<forall>d. \<not> duration_at (drop k (c # cs)) d"
    proof (intro allI impI)
      fix k d
      assume k: "k < length (c # pre)"
      show "\<not> duration_at (drop k (c # cs)) d"
      proof (cases k)
        case 0
        with None show ?thesis unfolding re_match_days_None_iff by simp
      next
        case (Suc j)
        with k p(3) show ?thesis by simp
      qed
    qed
    with p have "c # cs = (c # pre) @ t \<and> duration_at t ds
        \<and> (\<forall>k<length (c # pre). \<forall>d. \<not> duration_at (drop k (c # cs)) d)" by simp
    then show ?thesis by blast
  qed
qed

lemma re_search_days_cases:
  "(\<exists>pre t ds. s = pre @ t \<and> duration_at t ds
        \<and> (\<forall>k<length pre. \<forall>d. \<not> duration_at (drop k s) d))
   \<or> (\<forall>k\<le>length s. \<forall>d. \<not> duration_at (drop k s) d)"
proof (cases "re_search_days s")
  case (Some ds)
  from re_search_days_Some [OF this] show ?thesis by blast
next
  case None
  have "\<forall>k\<le>length s. \<forall>d. \<not> duration_at (drop k s) d"
  proof (intro allI impI notI)
    fix k d
    assume k: "k \<le> length s" and d: "duration_at (drop k s) d"
    have "(\<forall>j<length (take k s). \<forall>d'. \<not> duration_at (drop j (take k s @ drop k s)) d')
        \<or> (\<exists>j<length (take k s). \<exists>d'. duration_at (drop j (take k s @ drop k s)) d')" by blast
    then show False
    proof
      assume "\<forall>j<length (take k s). \<forall>d'. \<not> duration_at (drop j (take k s @ drop k s)) d'"
      from re_search_days_first [OF this d] None show False by simp
    next
      assume "\<exists>j<length (take k s). \<exists>d'. duration_at (drop j (take k s @ drop k s)) d'"
      then obtain j d' where "duration_at (drop j s) d'" by auto
      then have "\<exists>j d'. duration_at (drop j s) d'" by blast
      then obtain j0 where j0: "\<exists>d'. duration_at (drop j0 s) d'"
        and least: "\<forall>i<j0. \<not> (\<exists>d'. duration_at (drop i s) d')"
        using exists_least_iff [of "\<lambda>j. \<exists>d'. duration_at (drop j s) d'"] by blast
      from j0 obtain d0 where d0: "duration_at (drop j0 s) d0" by blast
      have "\<forall>i<length (take j0 s). \<forall>d'. \<not> duration_at (drop i (take j0 s @ drop j0 s)) d'"
        using least by auto
      from re_search_days_first [OF this d0] None show False by simp
    qed
  qed
  then show ?thesis by blast
qed

text \<open>
  Claim C4: for every text and predicted priority, \<open>override_priority\<close> returns \<open>HIGH\<close>
  when the lowercased text contains a hazard keyword. Otherwise the first place of the
  lowercased text where a duration "<integer> day" starts decides: \<open>HIGH\<close> when its
  integer is at least 4, the predicted priority when it is smaller, whatever durations
  follow. With no hazard keyword and no duration the predicted priority is returned.
  One of these cases always applies; the text "5 days" gives \<open>HIGH\<close> and the text
  "2 days" the prediction.
\<close>

theorem override_priority_spec:
  "(any_in (lower text) hazard_words \<longrightarrow> override_priority text predicted = ''HIGH'')
   \<and> (\<not> any_in (lower text) hazard_words \<and> lower text = pre @ s \<and> duration_at s ds
        \<and> (\<forall>k<length pre. \<forall>d. \<not> duration_at (drop k (lower text)) d)
      \<longrightarrow> override_priority text predicted
            = (if 4 \<le> int_of_digits ds then ''HIGH'' else predicted))
   \<and> (\<not> any_in (lower text) hazard_words
        \<and> (\<forall>k\<le>length (lower text). \<forall>d. \<not> duration_at (drop k (lower text)) d)
      \<longrightarrow> override_priority text predicted = predicted)
   \<and> ((\<exists>a b d. lower text = a @ b \<and> duration_at b d
          \<and> (\<forall>k<length a. \<forall>d'. \<not> duration_at (drop k (lower text)) d'))
        \<or> (\<forall>k\<le>length (lower text). \<forall>d. \<not> duration_at (drop k (lower text)) d))
   \<and> override_priority ''5 days'' predicted = ''HIGH''
   \<and> override_priority ''2 days'' predicted = predicted"
proof (intro conjI impI)
  show "(\<exists>a b d. lower text = a @ b \<and> duration_at b d
          \<and> (\<forall>k<length a. \<forall>d'. \<not> duration_at (drop k (lower text)) d'))
        \<or> (\<forall>k\<le>length (lower text). \<forall>d. \<not> duration_at (drop k (lower text)) d)"
    by (rule re_search_days_cases)
next
  assume "any_in (lower text) hazard_words"
  then show "override_priority text predicted = ''HIGH''"
    by (simp add: override_priority_def Let_def)
next
  assume a: "\<not> any_in (lower text) hazard_words \<and> lower text = pre @ s \<and> duration_at s ds
        \<and> (\<forall>k<length pre. \<forall>d. \<not> duration_at (drop k (lower text)) d)"
  then have "\<forall>k<length pre. \<forall>d. \<not> duration_at (drop k (pre @ s)) d" by metis
  with a have "re_search_days (pre @ s) = Some ds"
    using re_search_days_first [of pre s ds] by blast
  with a show "override_priority text predicted
            = (if 4 \<le> int_of_digits ds then ''HIGH'' else predicted)"
    by (auto simp: override_priority_def Let_def)
next
  assume a: "\<not> any_in (lower text) hazard_words
        \<and> (\<forall>k\<le>length (lower text). \<forall>d. \<not> duration_at (drop k (lower text)) d)"
  then have "re_search_days (lower text) = None" by (simp add: re_search_days_none)
  with a show "override_priority text predicted = predicted"
    by (simp add: override_priority_def Let_def)
next
  show "override_priority ''5 days'' predicted = ''HIGH''"
    by (simp add: override_priority_def lower_def lower_char_def any_in_def hazard_words_def
        isdigit_def isspace_def int_of_digits_def digit_value_def)
next
  show "override_priority ''2 days'' predicted = predicted"
    by (simp add: override_priority_def lower_def lower_char_def any_in_def hazard_words_def
        isdigit_def isspace_def int_of_digits_def digit_value_def)
qed

theorem override_priority_spec_witness:
  "override_priority ''LIVE WIRE on the road'' ''LOW'' = ''HIGH''
   \<and> override_priority ''Dark 2 days, then 10 days'' ''LOW'' = ''LOW''
   \<and> override_priority ''Dark 12 days'' ''LOW'' = ''HIGH''
   \<and> override_priority ''bench'' ''MEDIUM'' = ''MEDIUM''"
proof -
  have h: "any_in (lower ''LIVE WIRE on the road'') hazard_words"
    by code_simp
  have n1: "\<not> any_in (lower ''Dark 2 days, then 10 days'') hazard_words"
    by code_simp
  have l1: "lower ''Dark 2 days, then 10 days'' = ''dark '' @ ''2 days, then 10 days''"
    by code_simp
  have "re_match_days ''2 days, then 10 days'' = Some ''2''"
    by (simp add: isdigit_def isspace_def)
  then have d1: "duration_at ''2 days, then 10 days'' ''2''"
    by (simp only: re_match_days_iff)
  have "\<forall>k<length ''dark ''. re_match_days (drop k ''dark 2 days, then 10 days'') = None"
    by (simp add: All_less_Suc isdigit_def)
  then have f1: "\<forall>k<length ''dark ''. \<forall>d.
      \<not> duration_at (drop k (lower ''Dark 2 days, then 10 days'')) d"
    unfolding re_match_days_None_iff l1 by simp
  have v1: "int_of_digits ''2'' = 2"
    by (simp add: int_of_digits_def digit_value_def)
  have n2: "\<not> any_in (lower ''Dark 12 days'') hazard_words"
    by code_simp
  have l2: "lower ''Dark 12 days'' = ''dark '' @ ''12 days''"
    by code_simp
  have "re_match_days ''12 days'' = Some ''12''"
    by (simp add: isdigit_def isspace_def)
  then have d2: "duration_at ''12 days'' ''12''"
    by (simp only: re_match_days_iff)
  have "\<forall>k<length ''dark ''. re_match_days (drop k ''dark 12 days'') = None"
    by (simp add: All_less_Suc isdigit_def)
  then have f2: "\<forall>k<length ''dark ''. \<forall>d. \<not> duration_at (drop k (lower ''Dark 12 days'')) d"
    unfolding re_match_days_None_iff l2 by simp
  have v2: "int_of_digits ''12'' = 12"
    by (simp add: int_of_digits_def digit_value_def)
  have n3: "\<not> any_in (lower ''bench'') hazard_words"
    by code_simp
  have "\<forall>k\<le>length ''bench''. re_match_days (drop k ''bench'') = None"
    by (simp add: All_less_Suc le_less_Suc_eq isdigit_def flip: less_Suc_eq_le)
  moreover have "lower ''bench'' = ''bench''" by code_simp
  ultimately have f3: "\<forall>k\<le>length (lower ''bench''). \<forall>d. \<not> duration_at (drop k (lower ''bench'')) d"
    unfolding re_match_days_None_iff by simp
  from h override_priority_spec [of "''LIVE WIRE on the road''" "''LOW''"]
  have 1: "override_priority ''LIVE WIRE on the road'' ''LOW'' = ''HIGH''" by blast
  from n1 l1 d1 f1
    override_priority_spec [of "''Dark 2 days, then 10 days''" "''LOW''" "''dark ''"
      "''2 days, then 10 days''" "''2''"]
  have "override_priority ''Dark 2 days, then 10 days'' ''LOW''
      = (if 4 \<le> int_of_digits ''2'' then ''HIGH'' else ''LOW'')" by blast
  with v1 have 2: "override_priority ''Dark 2 days, then 10 days'' ''LOW'' = ''LOW''" by simp
  from n2 l2 d2 f2
    override_priority_spec [of "''Dark 12 days''" "''LOW''" "''dark ''" "''12 days''" "''12''"]
  have "override_priority ''Dark 12 days'' ''LOW''
      = (if 4 \<le> int_of_digits ''12'' then ''HIGH'' else ''LOW'')" by blast
  with v2 have 3: "override_priority ''Dark 12 days'' ''LOW'' = ''HIGH''" by simp
  from n3 f3 override_priority_spec [of "''bench''" "''MEDIUM''"]
  have 4: "override_priority ''bench'' ''MEDIUM'' = ''MEDIUM''" by blast
  from 1 2 3 4 show ?thesis by blast
qed

section \<open>Properties of the override engine\<close>


lemma override_department_idem:
  "override_department text (override_department text predicted)
     = override_department text predicted"
  by (simp add: override_department_def Let_def)

lemma override_priority_idem:
  "override_priority text (override_priority text predicted) = override_priority text predicted"
  by (simp add: override_priority_def Let_def split: option.splits)

lemma fst_apply_overrides:
  "fst (apply_overrides text validated)
     = validated\<lparr>department := override_department text (department validated),
                 priority := override_priority text (priority validated)\<rparr>"
  by (simp add: apply_overrides_def Let_def)

text \<open>
  Claim C9: for every text and every response, applying \<open>apply_overrides\<close> to the
  response it returned gives that response again; the second application changes nothing
  and so prints no line.
\<close>

theorem apply_overrides_idempotent:
  "fst (apply_overrides text (fst (apply_overrides text validated)))
     = fst (apply_overrides text validated)
   \<and> apply_overrides text (fst (apply_overrides text validated))
     = (fst (apply_overrides text validated), [])"
  by (simp add: apply_overrides_def Let_def override_department_idem override_priority_idem)

text \<open>
  Claim C10: \<open>apply_overrides\<close> changes at most the department and the priority: the
  intent and the confidence of the response it returns are those of its argument.
\<close>

theorem apply_overrides_frame:
  "intent (fst (apply_overrides text validated)) = intent validated
   \<and> confidence (fst (apply_overrides text validated)) = confidence validated
   \<and> fst (apply_overrides text validated)
       = validated\<lparr>department := department (fst (apply_overrides text validated)),
                   priority := priority (fst (apply_overrides text validated))\<rparr>"
  by (simp add: fst_apply_overrides)

theorem apply_overrides_frame_witness:
  "apply_overrides ''Pothole near the school, accident risk''
      \<lparr>intent = ''COMPLAINT'', department = ''OTHER'', priority = ''LOW'', confidence = 0.7\<rparr>
     = (\<lparr>intent = ''COMPLAINT'', department = ''ROADS'', priority = ''HIGH'',
         confidence = 0.7\<rparr>,
        [DepartmentChanged ''OTHER'' ''ROADS'', PriorityChanged ''LOW'' ''HIGH''])"
proof -
  let ?r = "\<lparr>intent = ''COMPLAINT'', department = ''OTHER'', priority = ''LOW'',
      confidence = 0.7\<rparr>"
  have d: "override_department ''Pothole near the school, accident risk'' ''OTHER'' = ''ROADS''"
    by code_simp
  have p: "override_priority ''Pothole near the school, accident risk'' ''LOW'' = ''HIGH''"
    by code_simp
  from apply_overrides_frame [of "''Pothole near the school, accident risk''" ?r]
  have "intent (fst (apply_overrides ''Pothole near the school, accident risk'' ?r))
      = ''COMPLAINT''" by simp
  then show ?thesis by (simp add: apply_overrides_def Let_def d p)
qed

theorem apply_overrides_idempotent_witness:
  "apply_overrides ''Pothole near the school, accident risk''
      (fst (apply_overrides ''Pothole near the school, accident risk''
         \<lparr>intent = ''COMPLAINT'', department = ''OTHER'', priority = ''LOW'',
          confidence = 0.7\<rparr>))
     = (\<lparr>intent = ''COMPLAINT'', department = ''ROADS'', priority = ''HIGH'',
         confidence = 0.7\<rparr>, [])"
proof -
  let ?r = "\<lparr>intent = ''COMPLAINT'', department = ''OTHER'', priority = ''LOW'',
      confidence = 0.7\<rparr>"
  have d: "override_department ''Pothole near the school, accident risk'' ''OTHER'' = ''ROADS''"
    by code_simp
  have p: "override_priority ''Pothole near the school, accident risk'' ''LOW'' = ''HIGH''"
    by code_simp
  have "fst (apply_overrides ''Pothole near the school, accident risk'' ?r)
      = \<lparr>intent = ''COMPLAINT'', department = ''ROADS'', priority = ''HIGH'',
         confidence = 0.7\<rparr>"
    by (simp add: fst_apply_overrides d p)
  with apply_overrides_idempotent [of "''Pothole near the school, accident risk''" ?r]
  show ?thesis by simp
qed

section \<open>Properties of the schema validator\<close>


lemma validate_literal_Some:
  "validate_literal allowed arg = Some s \<longleftrightarrow> arg = Some (JStr s) \<and> s \<in> set allowed"
  by (auto simp: validate_literal_def split: option.splits json.splits if_splits)

lemma validate_range_Some:
  "validate_range x = Some c \<longleftrightarrow> x = Some (Finite c) \<and> 0 \<le> c \<and> c \<le> 1"
  by (auto simp: validate_range_def split: option.splits pyfloat.splits if_splits)

lemma validate_float_Some:
  "validate_float lax arg = Some x \<longleftrightarrow>
     arg = Some (JFloat x)
     \<or> (\<exists>i. arg = Some (JInt i) \<and> x = Finite (of_int i))
     \<or> (\<exists>s. arg = Some (JStr s) \<and> lax (JStr s) = Some x)
     \<or> (\<exists>b. arg = Some (JBool b) \<and> lax (JBool b) = Some x)"
  by (auto simp: validate_float_def split: option.splits json.splits)

lemma ClassificationResponse_init_Inr:
  "ClassificationResponse_init lax kwargs = Inr r \<longleftrightarrow>
     validate_literal intents (map_of kwargs ''intent'') = Some (intent r)
     \<and> validate_literal departments (map_of kwargs ''department'') = Some (department r)
     \<and> validate_literal priorities (map_of kwargs ''priority'') = Some (priority r)
     \<and> validate_range (validate_float lax (map_of kwargs ''confidence'')) = Some (confidence r)"
  by (cases r) (auto simp: ClassificationResponse_init_def split: option.splits)

lemma ClassificationResponse_init_Inl:
  "ClassificationResponse_init lax kwargs = Inl err \<Longrightarrow> err = ValidationError"
  by (auto simp: ClassificationResponse_init_def split: option.splits)

text \<open>
  Claim C7, as stated, at the mapping whose \<open>confidence\<close> is the string "0.5": the field
  has the wrong type, so the claim has the construction fail, and the construction
  succeeds with the confidence 0.5, the string having been converted.
\<close>

theorem ClassificationResponse_init_counterexample:
  "\<not> spec_accepts
        [(''intent'', JStr ''COMPLAINT''), (''department'', JStr ''ROADS''),
         (''priority'', JStr ''LOW''), (''confidence'', JStr ''0.5'')]
   \<and> ClassificationResponse_init decimal_lax_float
        [(''intent'', JStr ''COMPLAINT''), (''department'', JStr ''ROADS''),
         (''priority'', JStr ''LOW''), (''confidence'', JStr ''0.5'')]
     = Inr \<lparr>intent = ''COMPLAINT'', department = ''ROADS'', priority = ''LOW'',
            confidence = 0.5\<rparr>"
  by (simp add: spec_accepts_def ClassificationResponse_init_def validate_literal_def
      validate_float_def validate_range_def decimal_lax_float_def intents_def departments_def
      priorities_def isdigit_def int_of_digits_def digit_value_def)

lemma ClassificationResponse_init_accepts:
  "(\<exists>r. ClassificationResponse_init lax kwargs = Inr r) \<longleftrightarrow>
     (\<exists>s. map_of kwargs ''intent'' = Some (JStr s) \<and> s \<in> set intents)
     \<and> (\<exists>s. map_of kwargs ''department'' = Some (JStr s) \<and> s \<in> set departments)
     \<and> (\<exists>s. map_of kwargs ''priority'' = Some (JStr s) \<and> s \<in> set priorities)
     \<and> (\<exists>c. validate_float lax (map_of kwargs ''confidence'') = Some (Finite c)
           \<and> 0 \<le> c \<and> c \<le> 1)"
  (is "?L \<longleftrightarrow> ?R")
proof
  assume ?L
  then obtain r where "ClassificationResponse_init lax kwargs = Inr r" by blast
  then show ?R
    unfolding ClassificationResponse_init_Inr validate_literal_Some validate_range_Some
    by blast
next
  assume ?R
  then obtain i d p c where
    "map_of kwargs ''intent'' = Some (JStr i)" "i \<in> set intents"
    "map_of kwargs ''department'' = Some (JStr d)" "d \<in> set departments"
    "map_of kwargs ''priority'' = Some (JStr p)" "p \<in> set priorities"
    "validate_float lax (map_of kwargs ''confidence'') = Some (Finite c)" "0 \<le> c" "c \<le> 1"
    by blast
  then have "ClassificationResponse_init lax kwargs
      = Inr \<lparr>intent = i, department = d, priority = p, confidence = c\<rparr>"
    unfolding ClassificationResponse_init_Inr validate_literal_Some validate_range_Some
    by simp
  then show ?L by blast
qed

lemma spec_accepts_imp:
  "spec_accepts kwargs \<Longrightarrow> \<exists>r. ClassificationResponse_init lax kwargs = Inr r"
  unfolding ClassificationResponse_init_accepts
  by (auto simp: spec_accepts_def validate_float_def
      split: option.splits json.splits pyfloat.splits)

text \<open>
  Claim C7, amended: constructing a \<open>ClassificationResponse\<close> from a parsed mapping fails,
  with a validation error, if and only if \<open>intent\<close>, \<open>department\<close> or \<open>priority\<close> is
  missing or is not a string of its closed enumeration, or \<open>confidence\<close> is missing, or
  is neither a number nor a string or boolean that the lax conversion turns into a
  number, or the number is outside [0,1]. The three tags are taken as they are: an
  out-of-enum string is rejected, not mapped to \<open>OTHER\<close>. Every mapping that the
  specification's wording accepts is accepted.
\<close>

theorem ClassificationResponse_init_spec:
  "((\<exists>err. ClassificationResponse_init lax kwargs = Inl err) \<longleftrightarrow>
      \<not> ((\<exists>s. map_of kwargs ''intent'' = Some (JStr s) \<and> s = ''COMPLAINT'')
         \<and> (\<exists>s. map_of kwargs ''department'' = Some (JStr s)
               \<and> s \<in> {''SANITATION'', ''WATER'', ''ELECTRICITY'', ''ROADS'',
                        ''PUBLIC_SAFETY'', ''OTHER''})
         \<and> (\<exists>s. map_of kwargs ''priority'' = Some (JStr s)
               \<and> s \<in> {''LOW'', ''MEDIUM'', ''HIGH''})
         \<and> (\<exists>c. (map_of kwargs ''confidence'' = Some (JFloat (Finite c))
                  \<or> (\<exists>i. map_of kwargs ''confidence'' = Some (JInt i) \<and> c = of_int i)
                  \<or> (\<exists>s. map_of kwargs ''confidence'' = Some (JStr s)
                        \<and> lax (JStr s) = Some (Finite c))
                  \<or> (\<exists>b. map_of kwargs ''confidence'' = Some (JBool b)
                        \<and> lax (JBool b) = Some (Finite c)))
               \<and> 0 \<le> c \<and> c \<le> 1)))
   \<and> (ClassificationResponse_init lax kwargs = Inl err \<longrightarrow> err = ValidationError)
   \<and> (ClassificationResponse_init lax kwargs = Inr r \<longrightarrow>
        map_of kwargs ''intent'' = Some (JStr (intent r))
        \<and> map_of kwargs ''department'' = Some (JStr (department r))
        \<and> map_of kwargs ''priority'' = Some (JStr (priority r)))
   \<and> (spec_accepts kwargs \<longrightarrow> (\<exists>r. ClassificationResponse_init lax kwargs = Inr r))"
proof (intro conjI impI)
  have "(\<exists>err. ClassificationResponse_init lax kwargs = Inl err)
      \<longleftrightarrow> \<not> (\<exists>r. ClassificationResponse_init lax kwargs = Inr r)"
    by (cases "ClassificationResponse_init lax kwargs") simp_all
  then show "(\<exists>err. ClassificationResponse_init lax kwargs = Inl err) \<longleftrightarrow>
      \<not> ((\<exists>s. map_of kwargs ''intent'' = Some (JStr s) \<and> s = ''COMPLAINT'')
         \<and> (\<exists>s. map_of kwargs ''department'' = Some (JStr s)
               \<and> s \<in> {''SANITATION'', ''WATER'', ''ELECTRICITY'', ''ROADS'',
                        ''PUBLIC_SAFETY'', ''OTHER''})
         \<and> (\<exists>s. map_of kwargs ''priority'' = Some (JStr s)
               \<and> s \<in> {''LOW'', ''MEDIUM'', ''HIGH''})
         \<and> (\<exists>c. (map_of kwargs ''confidence'' = Some (JFloat (Finite c))
                  \<or> (\<exists>i. map_of kwargs ''confidence'' = Some (JInt i) \<and> c = of_int i)
                  \<or> (\<exists>s. map_of kwargs ''confidence'' = Some (JStr s)
                        \<and> lax (JStr s) = Some (Finite c))
                  \<or> (\<exists>b. map_of kwargs ''confidence'' = Some (JBool b)
                        \<and> lax (JBool b) = Some (Finite c)))
               \<and> 0 \<le> c \<and> c \<le> 1))"
    unfolding ClassificationResponse_init_accepts validate_float_Some
    by (simp add: intents_def departments_def priorities_def)
next
  assume "ClassificationResponse_init lax kwargs = Inl err"
  then show "err = ValidationError" by (rule ClassificationResponse_init_Inl)
next
  assume "ClassificationResponse_init lax kwargs = Inr r"
  then show "map_of kwargs ''intent'' = Some (JStr (intent r))"
    and "map_of kwargs ''department'' = Some (JStr (department r))"
    and "map_of kwargs ''priority'' = Some (JStr (priority r))"
    unfolding ClassificationResponse_init_Inr validate_literal_Some by simp_all
next
  assume "spec_accepts kwargs"
  then show "\<exists>r. ClassificationResponse_init lax kwargs = Inr r" by (rule spec_accepts_imp)
qed

theorem ClassificationResponse_init_spec_witness:
  "ClassificationResponse_init decimal_lax_float
      [(''intent'', JStr ''COMPLAINT''), (''department'', JStr ''PARKS''),
       (''priority'', JStr ''LOW''), (''confidence'', JFloat (Finite 0.9))]
     = Inl ValidationError
   \<and> spec_accepts
      [(''intent'', JStr ''COMPLAINT''), (''department'', JStr ''WATER''),
       (''priority'', JStr ''HIGH''), (''confidence'', JFloat (Finite 0.9)),
       (''note'', JNull)]
   \<and> ClassificationResponse_init decimal_lax_float
      [(''intent'', JStr ''COMPLAINT''), (''department'', JStr ''WATER''),
       (''priority'', JStr ''HIGH''), (''confidence'', JFloat (Finite 0.9)),
       (''note'', JNull)]
     = Inr \<lparr>intent = ''COMPLAINT'', department = ''WATER'', priority = ''HIGH'',
            confidence = 0.9\<rparr>"
proof -
  let ?bad = "[(''intent'', JStr ''COMPLAINT''), (''department'', JStr ''PARKS''),
       (''priority'', JStr ''LOW''), (''confidence'', JFloat (Finite 0.9))]"
  let ?ok = "[(''intent'', JStr ''COMPLAINT''), (''department'', JStr ''WATER''),
       (''priority'', JStr ''HIGH''), (''confidence'', JFloat (Finite 0.9)),
       (''note'', JNull)]"
  have "\<not> (\<exists>s. map_of ?bad ''department'' = Some (JStr s)
               \<and> s \<in> {''SANITATION'', ''WATER'', ''ELECTRICITY'', ''ROADS'',
                        ''PUBLIC_SAFETY'', ''OTHER''})"
    by simp
  with ClassificationResponse_init_spec [of decimal_lax_float ?bad]
  obtain err where e: "ClassificationResponse_init decimal_lax_float ?bad = Inl err"
    by blast
  with ClassificationResponse_init_spec [of decimal_lax_float ?bad err]
  have 1: "ClassificationResponse_init decimal_lax_float ?bad = Inl ValidationError"
    by blast
  have 2: "spec_accepts ?ok"
    by (simp add: spec_accepts_def intents_def departments_def priorities_def)
  with ClassificationResponse_init_spec [of decimal_lax_float ?ok]
  obtain r where r: "ClassificationResponse_init decimal_lax_float ?ok = Inr r"
    by blast
  with ClassificationResponse_init_spec [of decimal_lax_float ?ok _ r]
  have "map_of ?ok ''intent'' = Some (JStr (intent r))"
    and "map_of ?ok ''department'' = Some (JStr (department r))"
    and "map_of ?ok ''priority'' = Some (JStr (priority r))"
    by blast+
  then have f: "intent r = ''COMPLAINT''" "department r = ''WATER''" "priority r = ''HIGH''"
    by simp_all
  from r have "confidence r = 0.9"
    by (simp add: ClassificationResponse_init_Inr validate_range_Some validate_float_def)
  with f have "r = \<lparr>intent = ''COMPLAINT'', department = ''WATER'', priority = ''HIGH'',
            confidence = 0.9\<rparr>" by (cases r) simp
  with r have 3: "ClassificationResponse_init decimal_lax_float ?ok
     = Inr \<lparr>intent = ''COMPLAINT'', department = ''WATER'', priority = ''HIGH'',
            confidence = 0.9\<rparr>" by simp
  from 1 2 3 show ?thesis by blast
qed

section \<open>Properties of the classification\<close>


lemma override_department_in:
  "predicted \<in> set departments \<Longrightarrow> override_department text predicted \<in> set departments"
  by (simp add: override_department_def Let_def departments_def)

lemma override_priority_in:
  "predicted \<in> set priorities \<Longrightarrow> override_priority text predicted \<in> set priorities"
  by (simp add: override_priority_def Let_def priorities_def split: option.splits)

lemma well_formed_init:
  "ClassificationResponse_init lax kwargs = Inr r \<Longrightarrow> well_formed r"
  unfolding ClassificationResponse_init_Inr validate_literal_Some validate_range_Some
  by (simp add: well_formed_def intents_def)

lemma well_formed_enforcement: "well_formed r \<Longrightarrow> well_formed (confidence_enforcement r)"
  by (simp add: well_formed_def confidence_enforcement_def departments_def)

lemma well_formed_overrides: "well_formed r \<Longrightarrow> well_formed (fst (apply_overrides text r))"
  by (simp add: well_formed_def fst_apply_overrides override_department_in override_priority_in)

lemma well_formed_fallback: "well_formed fallback"
  by (simp add: well_formed_def fallback_def departments_def priorities_def)

lemma validated_suggestion_well_formed:
  "validated_suggestion e clean_text = Inr v \<Longrightarrow> well_formed v"
  by (auto simp: validated_suggestion_def Let_def well_formed_init
      split: sum.splits json.splits)

lemma well_formed_classify: "well_formed (fst (classify e text))"
  by (auto simp: classify_def Let_def well_formed_fallback well_formed_overrides
      well_formed_enforcement validated_suggestion_well_formed split: sum.splits)

text \<open>
  Claim C1: for every input text, and whatever the endpoint, \<open>json.loads\<close> and the lax
  conversion do, the result of \<open>classify\<close> has the intent \<open>COMPLAINT\<close>, a department
  and a priority of their enumerations and a confidence in [0,1]: on the validated path
  and on the fallback path all four fields are set and in range.
\<close>

theorem classify_well_formed:
  "intent (fst (classify e text)) = ''COMPLAINT''
   \<and> department (fst (classify e text))
       \<in> {''SANITATION'', ''WATER'', ''ELECTRICITY'', ''ROADS'', ''PUBLIC_SAFETY'', ''OTHER''}
   \<and> priority (fst (classify e text)) \<in> {''LOW'', ''MEDIUM'', ''HIGH''}
   \<and> 0 \<le> confidence (fst (classify e text))
   \<and> confidence (fst (classify e text)) \<le> 1"
  using well_formed_classify [of e "text"]
  by (simp add: well_formed_def departments_def priorities_def)

text \<open>
  The doubles of the examples: each is the multiple of \<open>2^-53\<close> (the spacing of the
  doubles from 1/2 to 1) nearest to its literal. A double of that range is below 3/5
  exactly when it is at most the double \<open>0.6\<close>.
\<close>

lemma float_0_6_nearest: "float_0_6 < 0.6 \<and> 0.6 - float_0_6 < 1 / 2 ^ 54"
  by (simp add: float_0_6_def)

lemma float_0_59_nearest: "float_0_59 < 0.59 \<and> 0.59 - float_0_59 < 1 / 2 ^ 54"
  by (simp add: float_0_59_def)

lemma float_0_59_range: "0 \<le> float_0_59" "float_0_59 \<le> 1" "float_0_59 < float_0_6"
  by (simp_all add: float_0_59_def float_0_6_def)

lemma float_0_6_range: "0 \<le> float_0_6" "float_0_6 \<le> 1"
  by (simp_all add: float_0_6_def)

lemma double_below_0_6:
  "real_of_int m / 2 ^ 53 < 0.6 \<longleftrightarrow> real_of_int m / 2 ^ 53 \<le> float_0_6"
proof -
  have "real_of_int m / 2 ^ 53 < 0.6 \<longleftrightarrow> real_of_int m * 5 < 3 * 2 ^ 53"
    by (simp add: field_simps)
  also have "\<dots> \<longleftrightarrow> m * 5 < 3 * 2 ^ 53"
    by (metis (mono_tags) of_int_less_iff of_int_mult of_int_numeral of_int_power)
  also have "\<dots> \<longleftrightarrow> m \<le> 5404319552844595" by simp arith
  also have "\<dots> \<longleftrightarrow> real_of_int m \<le> 5404319552844595"
    by (metis of_int_le_iff of_int_numeral)
  also have "\<dots> \<longleftrightarrow> real_of_int m / 2 ^ 53 \<le> float_0_6"
    by (simp add: float_0_6_def field_simps)
  finally show ?thesis .
qed

text \<open>
  The example endpoint suggests \<open>ROADS\<close> with the double \<open>0.59\<close> as confidence for
  every text.
\<close>

lemma roads_suggestion:
  "validated_suggestion roads_env clean_text
     = Inr \<lparr>intent = ''COMPLAINT'', department = ''ROADS'', priority = ''LOW'',
            confidence = float_0_59\<rparr>"
  by (simp add: validated_suggestion_def call_ollama_def roads_env_def table_env_def
      body_of_def roads_raw_def roads_object_def json_string_def quoted_def getitem_def
      extract_json_def re_match_braces_def roads_kwargs_def ClassificationResponse_init_def
      validate_literal_def validate_float_def validate_range_def intents_def departments_def
      priorities_def float_0_59_range)

theorem classify_well_formed_witness:
  "intent (fst (classify roads_env ''Garbage piling up for 5 days'')) = ''COMPLAINT''
   \<and> department (fst (classify roads_env ''Garbage piling up for 5 days'')) = ''SANITATION''
   \<and> priority (fst (classify roads_env ''Garbage piling up for 5 days'')) = ''HIGH''
   \<and> confidence (fst (classify roads_env ''Garbage piling up for 5 days'')) = float_0_59
   \<and> fst (classify unreachable_env ''Garbage piling up for 5 days'') = fallback"
proof -
  note s = roads_suggestion [of "sanitize_input ''Garbage piling up for 5 days''"]
  have t: "sanitize_input ''Garbage piling up for 5 days'' = ''Garbage piling up for 5 days''"
    by (simp add: sanitize_input_def strip_def isspace_def)
  have d: "override_department ''Garbage piling up for 5 days'' ''OTHER'' = ''SANITATION''"
    by code_simp
  have p: "override_priority ''Garbage piling up for 5 days'' ''LOW'' = ''HIGH''"
    by code_simp
  have u: "fst (classify unreachable_env ''Garbage piling up for 5 days'') = fallback"
    by (simp add: classify_def validated_suggestion_def call_ollama_def unreachable_env_def)
  from classify_well_formed [of roads_env "''Garbage piling up for 5 days''"]
  have "intent (fst (classify roads_env ''Garbage piling up for 5 days'')) = ''COMPLAINT''"
    by simp
  moreover have "department (fst (classify roads_env ''Garbage piling up for 5 days''))
      = ''SANITATION''"
    using s t
    by (simp add: classify_def fst_apply_overrides confidence_enforcement_def d float_0_59_range)
  moreover have "priority (fst (classify roads_env ''Garbage piling up for 5 days'')) = ''HIGH''"
    using s t
    by (simp add: classify_def fst_apply_overrides confidence_enforcement_def p float_0_59_range)
  moreover have "confidence (fst (classify roads_env ''Garbage piling up for 5 days'')) = float_0_59"
    using s t
    by (simp add: classify_def fst_apply_overrides confidence_enforcement_def float_0_59_range)
  ultimately show ?thesis using u by simp
qed

lemma boundary_suggestion:
  "validated_suggestion boundary_env clean_text
     = Inr \<lparr>intent = ''COMPLAINT'', department = ''ROADS'', priority = ''LOW'',
            confidence = float_0_6\<rparr>"
  by (simp add: validated_suggestion_def call_ollama_def boundary_env_def table_env_def
      body_of_def boundary_object_def json_string_def quoted_def getitem_def
      extract_json_def re_match_braces_def ClassificationResponse_init_def
      validate_literal_def validate_float_def validate_range_def intents_def departments_def
      priorities_def float_0_6_range)

text \<open>
  Claim C5: when the confidence of the validated response is strictly below 0.6 (0.59,
  say), step 4 of \<open>classify\<close> sets its department to \<open>OTHER\<close> and leaves its priority
  and its confidence as they are, and the override rules then run on the response so
  changed: the department that \<open>classify\<close> returns is what the department override
  makes of \<open>OTHER\<close>. The confidence and the \<open>0.6\<close> of the source are doubles, and
  "below" is their comparison: a confidence that is the double \<open>0.6\<close> itself is not below
  it and keeps its department, and every other double below 3/5 is below the double
  \<open>0.6\<close>.
\<close>

theorem confidence_floor:
  "(confidence validated < float_0_6
      \<longrightarrow> department (confidence_enforcement validated) = ''OTHER'')
   \<and> (confidence validated = float_0_59
      \<longrightarrow> department (confidence_enforcement validated) = ''OTHER'')
   \<and> ((confidence validated < 1 / 2 \<or> (\<exists>m. confidence validated = real_of_int m / 2 ^ 53))
        \<and> confidence validated < 0.6 \<and> confidence validated \<noteq> float_0_6
      \<longrightarrow> department (confidence_enforcement validated) = ''OTHER'')
   \<and> (\<not> confidence validated < float_0_6
      \<longrightarrow> confidence_enforcement validated = validated)
   \<and> priority (confidence_enforcement validated) = priority validated
   \<and> confidence (confidence_enforcement validated) = confidence validated
   \<and> (validated_suggestion e (sanitize_input text) = Inr validated
        \<longrightarrow> classify e text
            = apply_overrides (sanitize_input text) (confidence_enforcement validated))
   \<and> (validated_suggestion e (sanitize_input text) = Inr validated
        \<and> confidence validated < float_0_6
        \<longrightarrow> department (fst (classify e text))
              = override_department (sanitize_input text) ''OTHER''
            \<and> priority (fst (classify e text))
              = override_priority (sanitize_input text) (priority validated)
            \<and> confidence (fst (classify e text)) = confidence validated)"
proof -
  have b: "confidence validated < float_0_6"
    if "(confidence validated < 1 / 2 \<or> (\<exists>m. confidence validated = real_of_int m / 2 ^ 53))
        \<and> confidence validated < 0.6 \<and> confidence validated \<noteq> float_0_6"
  proof -
    from that consider "confidence validated < 1 / 2"
      | m where "confidence validated = real_of_int m / 2 ^ 53" by blast
    then show ?thesis
    proof cases
      case 1
      then show ?thesis by (simp add: float_0_6_def)
    next
      case 2
      with that have "real_of_int m / 2 ^ 53 < 0.6" by simp
      then have "real_of_int m / 2 ^ 53 \<le> float_0_6" by (simp only: double_below_0_6)
      with 2 that show ?thesis by simp
    qed
  qed
  show ?thesis
    using b float_0_59_range(3)
    by (simp add: confidence_enforcement_def classify_def Let_def fst_apply_overrides)
qed

theorem confidence_floor_witness:
  "validated_suggestion roads_env (sanitize_input ''  The park bench is broken  '')
     = Inr \<lparr>intent = ''COMPLAINT'', department = ''ROADS'', priority = ''LOW'',
            confidence = float_0_59\<rparr>
   \<and> department (confidence_enforcement
        \<lparr>intent = ''COMPLAINT'', department = ''ROADS'', priority = ''LOW'',
         confidence = float_0_59\<rparr>) = ''OTHER''
   \<and> fst (classify roads_env ''  The park bench is broken  '')
     = \<lparr>intent = ''COMPLAINT'', department = ''OTHER'', priority = ''LOW'',
        confidence = float_0_59\<rparr>
   \<and> fst (classify roads_env ''Garbage piling up for 5 days'')
     = \<lparr>intent = ''COMPLAINT'', department = ''SANITATION'', priority = ''HIGH'',
        confidence = float_0_59\<rparr>
   \<and> fst (classify boundary_env ''  The park bench is broken  '')
     = \<lparr>intent = ''COMPLAINT'', department = ''ROADS'', priority = ''LOW'',
        confidence = float_0_6\<rparr>"
proof -
  let ?v = "\<lparr>intent = ''COMPLAINT'', department = ''ROADS'', priority = ''LOW'',
            confidence = float_0_59\<rparr>"
  let ?w = "\<lparr>intent = ''COMPLAINT'', department = ''ROADS'', priority = ''LOW'',
            confidence = float_0_6\<rparr>"
  have c: "confidence ?v < float_0_6" by (simp add: float_0_59_range)
  have nc: "\<not> confidence ?w < float_0_6" by simp
  note s1 = roads_suggestion [of "sanitize_input ''  The park bench is broken  ''"]
  note s2 = roads_suggestion [of "sanitize_input ''Garbage piling up for 5 days''"]
  note s3 = boundary_suggestion [of "sanitize_input ''  The park bench is broken  ''"]
  from c confidence_floor [of ?v]
  have 1: "department (confidence_enforcement ?v) = ''OTHER''" by blast
  have t1: "sanitize_input ''  The park bench is broken  '' = ''The park bench is broken''"
    by (simp add: sanitize_input_def strip_def isspace_def)
  have t2: "sanitize_input ''Garbage piling up for 5 days'' = ''Garbage piling up for 5 days''"
    by (simp add: sanitize_input_def strip_def isspace_def)
  have o1: "override_department ''The park bench is broken'' ''OTHER'' = ''OTHER''"
    by code_simp
  have r1: "override_department ''The park bench is broken'' ''ROADS'' = ''ROADS''"
    by code_simp
  have p1: "override_priority ''The park bench is broken'' ''LOW'' = ''LOW''"
    by code_simp
  have o2: "override_department ''Garbage piling up for 5 days'' ''OTHER'' = ''SANITATION''"
    by code_simp
  have p2: "override_priority ''Garbage piling up for 5 days'' ''LOW'' = ''HIGH''"
    by code_simp
  from s1 c confidence_floor [of ?v roads_env "''  The park bench is broken  ''"]
  have "department (fst (classify roads_env ''  The park bench is broken  ''))
          = override_department (sanitize_input ''  The park bench is broken  '') ''OTHER''
      \<and> priority (fst (classify roads_env ''  The park bench is broken  ''))
          = override_priority (sanitize_input ''  The park bench is broken  '') (priority ?v)
      \<and> confidence (fst (classify roads_env ''  The park bench is broken  ''))
          = confidence ?v"
    by blast
  with t1 o1 p1
  have f1: "department (fst (classify roads_env ''  The park bench is broken  '')) = ''OTHER''"
    "priority (fst (classify roads_env ''  The park bench is broken  '')) = ''LOW''"
    "confidence (fst (classify roads_env ''  The park bench is broken  '')) = float_0_59"
    by simp_all
  from s1 confidence_floor [of ?v roads_env "''  The park bench is broken  ''"]
  have e1: "classify roads_env ''  The park bench is broken  ''
      = apply_overrides (sanitize_input ''  The park bench is broken  '')
          (confidence_enforcement ?v)" by blast
  have i1: "intent (fst (classify roads_env ''  The park bench is broken  '')) = ''COMPLAINT''"
    unfolding e1 by (simp add: fst_apply_overrides confidence_enforcement_def)
  from f1 i1 have 2: "fst (classify roads_env ''  The park bench is broken  '')
     = \<lparr>intent = ''COMPLAINT'', department = ''OTHER'', priority = ''LOW'',
        confidence = float_0_59\<rparr>"
    by (cases "fst (classify roads_env ''  The park bench is broken  '')") simp
  from s2 c confidence_floor [of ?v roads_env "''Garbage piling up for 5 days''"]
  have "department (fst (classify roads_env ''Garbage piling up for 5 days''))
          = override_department (sanitize_input ''Garbage piling up for 5 days'') ''OTHER''
      \<and> priority (fst (classify roads_env ''Garbage piling up for 5 days''))
          = override_priority (sanitize_input ''Garbage piling up for 5 days'') (priority ?v)
      \<and> confidence (fst (classify roads_env ''Garbage piling up for 5 days''))
          = confidence ?v"
    by blast
  with t2 o2 p2
  have f2: "department (fst (classify roads_env ''Garbage piling up for 5 days'')) = ''SANITATION''"
    "priority (fst (classify roads_env ''Garbage piling up for 5 days'')) = ''HIGH''"
    "confidence (fst (classify roads_env ''Garbage piling up for 5 days'')) = float_0_59"
    by simp_all
  from s2 confidence_floor [of ?v roads_env "''Garbage piling up for 5 days''"]
  have e2: "classify roads_env ''Garbage piling up for 5 days''
      = apply_overrides (sanitize_input ''Garbage piling up for 5 days'')
          (confidence_enforcement ?v)" by blast
  have i2: "intent (fst (classify roads_env ''Garbage piling up for 5 days'')) = ''COMPLAINT''"
    unfolding e2 by (simp add: fst_apply_overrides confidence_enforcement_def)
  from f2 i2 have 3: "fst (classify roads_env ''Garbage piling up for 5 days'')
     = \<lparr>intent = ''COMPLAINT'', department = ''SANITATION'', priority = ''HIGH'',
        confidence = float_0_59\<rparr>"
    by (cases "fst (classify roads_env ''Garbage piling up for 5 days'')") simp
  from nc confidence_floor [of ?w]
  have k: "confidence_enforcement ?w = ?w" by blast
  from s3 confidence_floor [of ?w boundary_env "''  The park bench is broken  ''"]
  have "classify boundary_env ''  The park bench is broken  ''
      = apply_overrides (sanitize_input ''  The park bench is broken  '')
          (confidence_enforcement ?w)" by blast
  then have 4: "fst (classify boundary_env ''  The park bench is broken  '') = ?w"
    by (simp add: k t1 fst_apply_overrides r1 p1)
  from s1 1 2 3 4 show ?thesis by blast
qed

lemmas example_defs =
  validated_suggestion_def call_ollama_def table_env_def unreachable_env_def
  body_of_def json_string_def quoted_def getitem_def
  extract_json_def re_match_braces_def ClassificationResponse_init_def
  validate_literal_def validate_float_def validate_range_def intents_def departments_def
  priorities_def

lemma ex1: "validated_suggestion unreachable_env t = Inl RequestException"
  by (simp add: example_defs)
lemma ex2: "validated_suggestion server_error_env t = Inl HTTPError"
  by (simp add: example_defs server_error_env_def)
lemma ex3: "validated_suggestion prose_env t = Inl ValueError"
  by (simp add: example_defs prose_env_def)
lemma ex4: "validated_suggestion malformed_env t = Inl JSONDecodeError"
  by (simp add: example_defs malformed_env_def)
lemma ex5: "validated_suggestion parks_env t = Inl ValidationError"
  by (simp add: example_defs parks_env_def parks_object_def)

lemma extract_json_no_span:
  "\<not> (\<exists>a b c. raw = a @ CHR ''{'' # b @ CHR ''}'' # c)
     \<Longrightarrow> extract_json loads raw = Inl ValueError"
  by (cases "re_search_braces raw")
    (auto simp: extract_json_def dest!: re_search_braces_Some)

lemma extract_json_span:
  "raw = a @ CHR ''{'' # b @ CHR ''}'' # c \<Longrightarrow> CHR ''{'' \<notin> set a
     \<Longrightarrow> CHR ''}'' \<notin> set c
     \<Longrightarrow> extract_json loads raw = loads (CHR ''{'' # b @ [CHR ''}''])"
  by (simp add: extract_json_def re_search_braces_span)

text \<open>
  Claim C2, as stated, at an endpoint that answers with the status 300, which is not a
  success status, and a body that holds a classification: \<open>raise_for_status\<close> raises
  for the statuses from 400 to 599 only, so the reply is decoded and \<open>classify\<close>
  returns its classification, not the fallback.
\<close>

theorem classify_status_counterexample:
  "requests_post multiple_choices_env
      (SYSTEM_PROMPT @ newline # ''Complaint: '' @ sanitize_input ''Low pressure since morning'')
     = Inr \<lparr>status_code = 300, body = body_of water_object\<rparr>
   \<and> classify multiple_choices_env ''Low pressure since morning''
     = (\<lparr>intent = ''COMPLAINT'', department = ''WATER'', priority = ''LOW'',
         confidence = 0.75\<rparr>, [])
   \<and> fst (classify multiple_choices_env ''Low pressure since morning'') \<noteq> fallback"
proof -
  have s: "validated_suggestion multiple_choices_env clean_text
      = Inr \<lparr>intent = ''COMPLAINT'', department = ''WATER'', priority = ''LOW'',
            confidence = 0.75\<rparr>" for clean_text
    by (simp add: example_defs multiple_choices_env_def water_object_def)
  have t: "sanitize_input ''Low pressure since morning'' = ''Low pressure since morning''"
    by (simp add: sanitize_input_def strip_def isspace_def)
  have d: "override_department ''Low pressure since morning'' ''WATER'' = ''WATER''"
    by code_simp
  have p: "override_priority ''Low pressure since morning'' ''LOW'' = ''LOW''"
    by code_simp
  have c: "classify multiple_choices_env ''Low pressure since morning''
     = (\<lparr>intent = ''COMPLAINT'', department = ''WATER'', priority = ''LOW'',
         confidence = 0.75\<rparr>, [])"
    by (simp add: classify_def s t confidence_enforcement_def float_0_6_def
        apply_overrides_def Let_def d p)
  have r: "requests_post multiple_choices_env
      (SYSTEM_PROMPT @ newline # ''Complaint: '' @ sanitize_input ''Low pressure since morning'')
     = Inr \<lparr>status_code = 300, body = body_of water_object\<rparr>"
    by (simp add: multiple_choices_env_def table_env_def)
  from c have "fst (classify multiple_choices_env ''Low pressure since morning'') \<noteq> fallback"
    by (simp add: fallback_def)
  with r c show ?thesis by blast
qed

text \<open>
  Claim C2, amended: whenever the gateway call, the extraction or the validation fails,
  \<open>classify\<close> returns the fallback (intent \<open>COMPLAINT\<close>, department \<open>OTHER\<close>, priority
  \<open>MEDIUM\<close>, confidence 0.5) and prints the error; it raises nothing, and the override
  rules do not run on the fallback. The failures are: the request raises (network error,
  timeout), the status is from 400 to 599, the reply has no \<open>{\<close> with a \<open>}\<close> after it,
  the part from its first \<open>{\<close> to its last \<open>}\<close> is not JSON, the object violates the
  schema. A reply with any other status is decoded whatever the status is.
\<close>

theorem classify_fallback:
  "(validated_suggestion e (sanitize_input text) = Inl err
      \<longrightarrow> classify e text = (fallback, [ClassifierError err]))
   \<and> (requests_post e (SYSTEM_PROMPT @ newline # ''Complaint: '' @ sanitize_input text) = Inl err
      \<longrightarrow> classify e text = (fallback, [ClassifierError err]))
   \<and> (requests_post e (SYSTEM_PROMPT @ newline # ''Complaint: '' @ sanitize_input text) = Inr resp
        \<and> 400 \<le> status_code resp \<and> status_code resp < 600
      \<longrightarrow> classify e text = (fallback, [ClassifierError HTTPError]))
   \<and> (requests_post e (SYSTEM_PROMPT @ newline # ''Complaint: '' @ sanitize_input text) = Inr resp
        \<and> \<not> (400 \<le> status_code resp \<and> status_code resp < 600)
      \<longrightarrow> call_ollama e (SYSTEM_PROMPT @ newline # ''Complaint: '' @ sanitize_input text)
            = (case json_loads e (body resp) of
                 Inl err \<Rightarrow> Inl err
               | Inr v \<Rightarrow> getitem v ''response''))
   \<and> (call_ollama e (SYSTEM_PROMPT @ newline # ''Complaint: '' @ sanitize_input text) = Inl err
      \<longrightarrow> classify e text = (fallback, [ClassifierError err]))
   \<and> (call_ollama e (SYSTEM_PROMPT @ newline # ''Complaint: '' @ sanitize_input text)
          = Inr (JStr raw)
        \<and> \<not> (\<exists>a b c. raw = a @ CHR ''{'' # b @ CHR ''}'' # c)
      \<longrightarrow> classify e text = (fallback, [ClassifierError ValueError]))
   \<and> (call_ollama e (SYSTEM_PROMPT @ newline # ''Complaint: '' @ sanitize_input text)
          = Inr (JStr raw)
        \<and> raw = a @ CHR ''{'' # b @ CHR ''}'' # c
        \<and> CHR ''{'' \<notin> set a \<and> CHR ''}'' \<notin> set c
        \<and> json_loads e (CHR ''{'' # b @ [CHR ''}'']) = Inl err
      \<longrightarrow> classify e text = (fallback, [ClassifierError err]))
   \<and> (call_ollama e (SYSTEM_PROMPT @ newline # ''Complaint: '' @ sanitize_input text)
          = Inr (JStr raw)
        \<and> extract_json (json_loads e) raw = Inr (JDict kwargs)
        \<and> ClassificationResponse_init (lax_float e) kwargs = Inl err
      \<longrightarrow> classify e text = (fallback, [ClassifierError ValidationError]))
   \<and> fallback = \<lparr>intent = ''COMPLAINT'', department = ''OTHER'', priority = ''MEDIUM'',
                    confidence = 0.5\<rparr>"
proof (intro conjI impI)
  assume "validated_suggestion e (sanitize_input text) = Inl err"
  then show "classify e text = (fallback, [ClassifierError err])"
    by (simp add: classify_def)
next
  assume "requests_post e (SYSTEM_PROMPT @ newline # ''Complaint: '' @ sanitize_input text)
      = Inl err"
  then show "classify e text = (fallback, [ClassifierError err])"
    by (simp add: classify_def validated_suggestion_def call_ollama_def)
next
  assume "requests_post e (SYSTEM_PROMPT @ newline # ''Complaint: '' @ sanitize_input text)
      = Inr resp \<and> 400 \<le> status_code resp \<and> status_code resp < 600"
  then show "classify e text = (fallback, [ClassifierError HTTPError])"
    by (simp add: classify_def validated_suggestion_def call_ollama_def)
next
  assume "requests_post e (SYSTEM_PROMPT @ newline # ''Complaint: '' @ sanitize_input text)
      = Inr resp \<and> \<not> (400 \<le> status_code resp \<and> status_code resp < 600)"
  then show "call_ollama e (SYSTEM_PROMPT @ newline # ''Complaint: '' @ sanitize_input text)
      = (case json_loads e (body resp) of
           Inl err \<Rightarrow> Inl err
         | Inr v \<Rightarrow> getitem v ''response'')"
    by (auto simp: call_ollama_def)
next
  assume "call_ollama e (SYSTEM_PROMPT @ newline # ''Complaint: '' @ sanitize_input text)
      = Inl err"
  then show "classify e text = (fallback, [ClassifierError err])"
    by (simp add: classify_def validated_suggestion_def)
next
  assume "call_ollama e (SYSTEM_PROMPT @ newline # ''Complaint: '' @ sanitize_input text)
          = Inr (JStr raw)
        \<and> \<not> (\<exists>a b c. raw = a @ CHR ''{'' # b @ CHR ''}'' # c)"
  then show "classify e text = (fallback, [ClassifierError ValueError])"
    by (simp add: classify_def validated_suggestion_def extract_json_no_span)
next
  assume a: "call_ollama e (SYSTEM_PROMPT @ newline # ''Complaint: '' @ sanitize_input text)
          = Inr (JStr raw)
        \<and> raw = a @ CHR ''{'' # b @ CHR ''}'' # c
        \<and> CHR ''{'' \<notin> set a \<and> CHR ''}'' \<notin> set c
        \<and> json_loads e (CHR ''{'' # b @ [CHR ''}'']) = Inl err"
  then have "extract_json (json_loads e) raw = Inl err"
    using extract_json_span [of raw a b c "json_loads e"] by simp
  with a show "classify e text = (fallback, [ClassifierError err])"
    by (simp add: classify_def validated_suggestion_def)
next
  assume a: "call_ollama e (SYSTEM_PROMPT @ newline # ''Complaint: '' @ sanitize_input text)
          = Inr (JStr raw)
        \<and> extract_json (json_loads e) raw = Inr (JDict kwargs)
        \<and> ClassificationResponse_init (lax_float e) kwargs = Inl err"
  then have "err = ValidationError" using ClassificationResponse_init_Inl by blast
  with a show "classify e text = (fallback, [ClassifierError ValidationError])"
    by (simp add: classify_def validated_suggestion_def)
next
  show "fallback = \<lparr>intent = ''COMPLAINT'', department = ''OTHER'', priority = ''MEDIUM'',
                    confidence = 0.5\<rparr>"
    by (simp add: fallback_def)
qed

theorem classify_fallback_witness:
  "classify unreachable_env ''Transformer on fire''
     = (\<lparr>intent = ''COMPLAINT'', department = ''OTHER'', priority = ''MEDIUM'',
         confidence = 0.5\<rparr>, [ClassifierError RequestException])
   \<and> classify server_error_env ''Transformer on fire''
     = (\<lparr>intent = ''COMPLAINT'', department = ''OTHER'', priority = ''MEDIUM'',
         confidence = 0.5\<rparr>, [ClassifierError HTTPError])
   \<and> classify prose_env ''Transformer on fire''
     = (\<lparr>intent = ''COMPLAINT'', department = ''OTHER'', priority = ''MEDIUM'',
         confidence = 0.5\<rparr>, [ClassifierError ValueError])
   \<and> classify malformed_env ''Transformer on fire''
     = (\<lparr>intent = ''COMPLAINT'', department = ''OTHER'', priority = ''MEDIUM'',
         confidence = 0.5\<rparr>, [ClassifierError JSONDecodeError])
   \<and> classify parks_env ''Transformer on fire''
     = (\<lparr>intent = ''COMPLAINT'', department = ''OTHER'', priority = ''MEDIUM'',
         confidence = 0.5\<rparr>, [ClassifierError ValidationError])
   \<and> fst (apply_overrides (sanitize_input ''Transformer on fire'') fallback)
     = \<lparr>intent = ''COMPLAINT'', department = ''ELECTRICITY'', priority = ''HIGH'',
        confidence = 0.5\<rparr>"
proof -
  have fb: "fallback = \<lparr>intent = ''COMPLAINT'', department = ''OTHER'', priority = ''MEDIUM'',
                    confidence = 0.5\<rparr>"
    using classify_fallback by blast
  from ex1 [of "sanitize_input ''Transformer on fire''"]
    classify_fallback [of unreachable_env "''Transformer on fire''" RequestException]
  have 1: "classify unreachable_env ''Transformer on fire''
      = (fallback, [ClassifierError RequestException])" by blast
  from ex2 [of "sanitize_input ''Transformer on fire''"]
    classify_fallback [of server_error_env "''Transformer on fire''" HTTPError]
  have 2: "classify server_error_env ''Transformer on fire''
      = (fallback, [ClassifierError HTTPError])" by blast
  from ex3 [of "sanitize_input ''Transformer on fire''"]
    classify_fallback [of prose_env "''Transformer on fire''" ValueError]
  have 3: "classify prose_env ''Transformer on fire''
      = (fallback, [ClassifierError ValueError])" by blast
  from ex4 [of "sanitize_input ''Transformer on fire''"]
    classify_fallback [of malformed_env "''Transformer on fire''" JSONDecodeError]
  have 4: "classify malformed_env ''Transformer on fire''
      = (fallback, [ClassifierError JSONDecodeError])" by blast
  from ex5 [of "sanitize_input ''Transformer on fire''"]
    classify_fallback [of parks_env "''Transformer on fire''" ValidationError]
  have 5: "classify parks_env ''Transformer on fire''
      = (fallback, [ClassifierError ValidationError])" by blast
  have t: "sanitize_input ''Transformer on fire'' = ''Transformer on fire''"
    by (simp add: sanitize_input_def strip_def isspace_def)
  have o: "override_department ''Transformer on fire'' ''OTHER'' = ''ELECTRICITY''"
    by code_simp
  have p: "override_priority ''Transformer on fire'' ''MEDIUM'' = ''HIGH''"
    by code_simp
  have 6: "fst (apply_overrides (sanitize_input ''Transformer on fire'') fallback)
     = \<lparr>intent = ''COMPLAINT'', department = ''ELECTRICITY'', priority = ''HIGH'',
        confidence = 0.5\<rparr>"
    by (simp add: fst_apply_overrides t fallback_def o p)
  from 1 2 3 4 5 6 show ?thesis unfolding fb by blast
qed

end
